theory Spec2Isabelle
  imports Main
begin

section \<open>The durable store (database.py)\<close>

text \<open>
  The SQLite tables of \<^verbatim>\<open>Database.init\<close> as lists of rows, in insertion order.
  Every table has an \<^verbatim>\<open>INTEGER PRIMARY KEY AUTOINCREMENT\<close> id: the store keeps, per
  table, the largest id ever handed out (SQLite's \<^verbatim>\<open>sqlite_sequence\<close>), and a new row
  gets that number plus one.  The column \<^verbatim>\<open>is_available\<close> only ever receives 0 and 1
  and is a \<open>bool\<close> here.  Date-times (Python's naive \<^verbatim>\<open>datetime\<close>) are counted in
  microseconds since 0001-01-01T00:00:00; a text column that holds an ISO rendering
  of a date-time (\<^verbatim>\<open>created_at\<close>, \<^verbatim>\<open>run_at\<close>) holds that number.  The id
  counters are taken to stay below \<open>2^63\<close> (a table would need that many inserts to
  get there).
\<close>

type_synonym datetime = int

text \<open>
  Python exceptions that the modelled code can raise.  \<^verbatim>\<open>OverflowError\<close>: the
  \<^verbatim>\<open>sqlite3\<close> binding refuses a Python integer outside the signed 64-bit range when
  it is bound to a query parameter, and \<^verbatim>\<open>datetime\<close> arithmetic refuses a result
  before year 1.  \<^verbatim>\<open>ValueError\<close>: \<^verbatim>\<open>strptime\<close> on text that does not match.
  No handler catches either of them.
\<close>

datatype error = OverflowError | ValueError

definition int64 :: "int \<Rightarrow> bool" where
  "int64 i \<longleftrightarrow> - (2 ^ 63) \<le> i \<and> i < 2 ^ 63"

record user =
  uid :: int
  tg_id :: int
  uname :: "string option"
  phone :: "string option"
  last_menu_message_id :: "int option"

record slot =
  sid :: int
  sdate :: string
  stime :: string
  is_available :: bool

record booking =
  bid :: int
  user_id :: int
  slot_id :: int
  status :: string
  created_at :: datetime

record reminder =
  rid :: int
  booking_id :: int
  run_at :: datetime
  job_id :: string

record database =
  users :: "user list"
  slots :: "slot list"
  bookings :: "booking list"
  reminders :: "reminder list"
  seq_users :: int
  seq_slots :: int
  seq_bookings :: int
  seq_reminders :: int

definition init_db :: database where
  "init_db = \<lparr>users = [], slots = [], bookings = [], reminders = [],
              seq_users = 0, seq_slots = 0, seq_bookings = 0, seq_reminders = 0\<rparr>"

subsection \<open>Python's date and time values and their text forms\<close>

record date =
  year :: nat
  month :: nat
  day :: nat

record time =
  hour :: nat
  minute :: nat

definition digit_char :: "nat \<Rightarrow> char" where
  "digit_char n = ''0123456789'' ! (n mod 10)"

fun str_nat :: "nat \<Rightarrow> string" where
  "str_nat n = (if n < 10 then [digit_char n] else str_nat (n div 10) @ [digit_char (n mod 10)])"

declare str_nat.simps [simp del]

definition str_int :: "int \<Rightarrow> string" where
  "str_int i = (if i < 0 then CHR ''-'' # str_nat (nat (- i)) else str_nat (nat i))"

definition zfill :: "nat \<Rightarrow> string \<Rightarrow> string" where
  "zfill k s = replicate (k - length s) CHR ''0'' @ s"

definition isoformat :: "date \<Rightarrow> string" where
  "isoformat d = zfill 4 (str_nat (year d)) @ ''-'' @ zfill 2 (str_nat (month d)) @ ''-''
                  @ zfill 2 (str_nat (day d))"

definition strftime_HM :: "time \<Rightarrow> string" where
  "strftime_HM t = zfill 2 (str_nat (hour t)) @ '':'' @ zfill 2 (str_nat (minute t))"

subsection \<open>Users\<close>

definition get_or_create_user :: "database \<Rightarrow> int \<Rightarrow> error + database \<times> int" where
  "get_or_create_user db tg =
     (if \<not> int64 tg then Inl OverflowError
      else
        (case find (\<lambda>u. tg_id u = tg) (users db) of
           Some u \<Rightarrow> Inr (db, uid u)
         | None \<Rightarrow>
             (let db' = db\<lparr>users := users db @
                           [\<lparr>uid = seq_users db + 1, tg_id = tg, uname = None, phone = None,
                             last_menu_message_id = None\<rparr>],
                         seq_users := seq_users db + 1\<rparr>
              in Inr (db', uid (the (find (\<lambda>u. tg_id u = tg) (users db')))))))"

definition update_user_info ::
  "database \<Rightarrow> int \<Rightarrow> string option \<Rightarrow> string option \<Rightarrow> error + database" where
  "update_user_info db tg nm ph =
     (if \<not> int64 tg then Inl OverflowError
      else Inr (db\<lparr>users := map (\<lambda>u. if tg_id u = tg then u\<lparr>uname := nm, phone := ph\<rparr> else u)
                                (users db)\<rparr>))"

subsection \<open>Slots\<close>

definition create_slot :: "database \<Rightarrow> date \<Rightarrow> time \<Rightarrow> database" where
  "create_slot db d t =
     db\<lparr>slots := slots db @
           [\<lparr>sid = seq_slots db + 1, sdate = isoformat d, stime = strftime_HM t,
             is_available = True\<rparr>],
        seq_slots := seq_slots db + 1\<rparr>"

definition close_day :: "database \<Rightarrow> date \<Rightarrow> database" where
  "close_day db d =
     db\<lparr>slots := map (\<lambda>s. if sdate s = isoformat d then s\<lparr>is_available := False\<rparr> else s)
                      (slots db)\<rparr>"

definition get_slot :: "database \<Rightarrow> int \<Rightarrow> error + slot option" where
  "get_slot db i = (if \<not> int64 i then Inl OverflowError else Inr (find (\<lambda>s. sid s = i) (slots db)))"

subsection \<open>Bookings\<close>

text \<open>
  The first query of \<^verbatim>\<open>book_slot\<close> (and the query of \<^verbatim>\<open>get_active_booking_by_tg\<close>):
  the active bookings joined with the user row of the given Telegram id.
\<close>

definition active_bookings_by_tg :: "database \<Rightarrow> int \<Rightarrow> booking list" where
  "active_bookings_by_tg db tg =
     concat (map (\<lambda>b. concat (map (\<lambda>u. if uid u = user_id b \<and> tg_id u = tg \<and> status b = ''active''
                                         then [b] else []) (users db))) (bookings db))"

text \<open>
  \<^verbatim>\<open>book_slot\<close> returns the store it leaves behind together with either the exception
  it raised or its return value (\<open>None\<close> is Python's \<^verbatim>\<open>None\<close>).  The user row is
  committed by \<^verbatim>\<open>get_or_create_user\<close> before the slot is looked at, so it stays when
  the slot query raises or the slot is refused.
\<close>

definition book_slot ::
  "database \<Rightarrow> datetime \<Rightarrow> int \<Rightarrow> int \<Rightarrow> database \<times> (error + int option)" where
  "book_slot db now tg i =
     (if \<not> int64 tg then (db, Inl OverflowError)
      else if active_bookings_by_tg db tg \<noteq> [] then (db, Inr None)
      else
        (case get_or_create_user db tg of
           Inl e \<Rightarrow> (db, Inl e)
         | Inr (db1, u) \<Rightarrow>
             if \<not> int64 i then (db1, Inl OverflowError)
             else
               (case find (\<lambda>s. sid s = i) (slots db1) of
                  None \<Rightarrow> (db1, Inr None)
                | Some s \<Rightarrow>
                    if \<not> is_available s then (db1, Inr None)
                    else
                      (let db2 = db1\<lparr>slots := map (\<lambda>s. if sid s = i then s\<lparr>is_available := False\<rparr>
                                                         else s) (slots db1)\<rparr>;
                           db3 = db2\<lparr>bookings := bookings db2 @
                                        [\<lparr>bid = seq_bookings db2 + 1, user_id = u, slot_id = i,
                                          status = ''active'', created_at = now\<rparr>],
                                     seq_bookings := seq_bookings db2 + 1\<rparr>
                       in (db3, Inr (map_option bid
                                  (find (\<lambda>b. user_id b = u \<and> slot_id b = i \<and> status b = ''active'')
                                     (bookings db3))))))))"

definition cancel_booking ::
  "database \<Rightarrow> int \<Rightarrow> error + database \<times> (string \<times> string) option" where
  "cancel_booking db k =
     (if \<not> int64 k then Inl OverflowError
      else
        (case find (\<lambda>b. bid b = k \<and> status b = ''active'') (bookings db) of
           None \<Rightarrow> Inr (db, None)
         | Some row \<Rightarrow>
             (let i = slot_id row;
                  db1 = db\<lparr>bookings := map (\<lambda>b. if bid b = k then b\<lparr>status := ''cancelled''\<rparr> else b)
                                             (bookings db)\<rparr>;
                  db2 = db1\<lparr>slots := map (\<lambda>s. if sid s = i then s\<lparr>is_available := True\<rparr> else s)
                                           (slots db1)\<rparr>
              in Inr (db2, map_option (\<lambda>s. (sdate s, stime s))
                             (find (\<lambda>s. sid s = i) (slots db2))))))"

subsection \<open>Reminder records\<close>

text \<open>
  \<^verbatim>\<open>INSERT OR REPLACE\<close> on the unique column \<^verbatim>\<open>booking_id\<close>: the rows in conflict are
  deleted, then the new row is inserted under a fresh id.
\<close>

definition save_reminder :: "database \<Rightarrow> int \<Rightarrow> datetime \<Rightarrow> string \<Rightarrow> error + database" where
  "save_reminder db k at j =
     (if \<not> int64 k then Inl OverflowError
      else Inr (db\<lparr>reminders := filter (\<lambda>r. booking_id r \<noteq> k) (reminders db) @
                     [\<lparr>rid = seq_reminders db + 1, booking_id = k, run_at = at, job_id = j\<rparr>],
                   seq_reminders := seq_reminders db + 1\<rparr>))"

definition delete_reminder :: "database \<Rightarrow> int \<Rightarrow> error + database \<times> string option" where
  "delete_reminder db k =
     (if \<not> int64 k then Inl OverflowError
      else
        (case find (\<lambda>r. booking_id r = k) (reminders db) of
           None \<Rightarrow> Inr (db, None)
         | Some row \<Rightarrow> Inr (db\<lparr>reminders := filter (\<lambda>r. booking_id r \<noteq> k) (reminders db)\<rparr>,
                            Some (job_id row))))"


section \<open>Parsing dates and times (Python's strptime)\<close>

text \<open>
  \<^verbatim>\<open>datetime.strptime\<close> turns the format into a regular expression, matches it at
  the start of the text (\<^verbatim>\<open>re.match\<close>, backtracking, first alternative first) and
  raises \<^verbatim>\<open>ValueError\<close> when nothing matches or text remains after the match.  Each
  directive is a list of alternatives, an alternative a list of character classes; a
  matcher returns, in the order the regular expression tries them, every way to match a
  prefix: the matched text and what is left.  Text is made of 8-bit characters here, so
  a digit is one of 0 to 9.
\<close>

definition digits :: string where
  "digits = ''0123456789''"

definition digit_val :: "char \<Rightarrow> nat" where
  "digit_val c = length (takeWhile (\<lambda>d. d \<noteq> c) digits)"

definition py_int :: "string \<Rightarrow> nat" where
  "py_int s = foldl (\<lambda>a c. 10 * a + digit_val c) 0 (filter (\<lambda>c. c \<in> set digits) s)"

fun match_classes :: "string list \<Rightarrow> string \<Rightarrow> (string \<times> string) option" where
  "match_classes [] s = Some ([], s)"
| "match_classes (c # cs) [] = None"
| "match_classes (c # cs) (x # s) =
     (if x \<in> set c then map_option (\<lambda>(m, r). (x # m, r)) (match_classes cs s) else None)"

definition alts :: "string list list \<Rightarrow> string \<Rightarrow> (string \<times> string) list" where
  "alts ps s = List.map_filter (\<lambda>p. match_classes p s) ps"

definition lit :: "char \<Rightarrow> string \<Rightarrow> string list" where
  "lit c s = (case s of [] \<Rightarrow> [] | x # r \<Rightarrow> if x = c then [r] else [])"

text \<open>The directives, as \<^verbatim>\<open>_strptime.TimeRE\<close> defines them.\<close>

definition re_Y :: "string list list" where
  "re_Y = [[digits, digits, digits, digits]]"

definition re_m :: "string list list" where
  "re_m = [[''1'', ''012''], [''0'', ''123456789''], [''123456789'']]"

definition re_d :: "string list list" where
  "re_d = [[''3'', ''01''], [''12'', digits], [''0'', ''123456789''], [''123456789''],
           ['' '', ''123456789'']]"

definition re_H :: "string list list" where
  "re_H = [[''2'', ''0123''], [''01'', digits], [digits]]"

definition re_M :: "string list list" where
  "re_M = [[''012345'', digits], [digits]]"

text \<open>
  White space in a format stands for \<^verbatim>\<open>\s+\<close>: one or more white-space characters,
  as many as possible first.
\<close>

definition is_space :: "char \<Rightarrow> bool" where
  "is_space c \<longleftrightarrow> c \<in> set [CHR '' '', CHR 0x09, CHR 0x0A, CHR 0x0B, CHR 0x0C, CHR 0x0D,
                             CHR 0x1C, CHR 0x1D, CHR 0x1E, CHR 0x1F, CHR 0x85, CHR 0xA0]"

definition ws_plus :: "string \<Rightarrow> string list" where
  "ws_plus s = map (\<lambda>k. drop k s) (rev [1..<Suc (length (takeWhile is_space s))])"

text \<open>
  The part \<^verbatim>\<open>%H:%M\<close> of a pattern and the part \<^verbatim>\<open>%Y-%m-%d\<close>: every way to match
  them at the start of the text, first choice first.
\<close>

definition match_HM :: "string \<Rightarrow> (string \<times> string \<times> string) list" where
  "match_HM s =
     concat (map (\<lambda>(h, r1). concat (map (\<lambda>r2. map (\<lambda>(m, r3). (h, m, r3)) (alts re_M r2))
                                         (lit CHR '':'' r1)))
                 (alts re_H s))"

definition match_Ymd :: "string \<Rightarrow> (string \<times> string \<times> string \<times> string) list" where
  "match_Ymd s =
     concat (map (\<lambda>(y, r1). concat (map (\<lambda>r2. concat (map (\<lambda>(m, r3). concat (map (\<lambda>r4.
         map (\<lambda>(d, r5). (y, m, d, r5)) (alts re_d r4))
       (lit CHR ''-'' r3))) (alts re_m r2))) (lit CHR ''-'' r1))) (alts re_Y s))"

text \<open>\<^verbatim>\<open>datetime.strptime(p, "%H:%M").time()\<close>\<close>

definition strptime_HM :: "string \<Rightarrow> error + time" where
  "strptime_HM s =
     (case match_HM s of
        [] \<Rightarrow> Inl ValueError
      | (h, m, r) # _ \<Rightarrow>
          if r \<noteq> [] then Inl ValueError else Inr \<lparr>hour = py_int h, minute = py_int m\<rparr>)"

text \<open>The proleptic Gregorian calendar of \<^verbatim>\<open>datetime\<close>.\<close>

definition is_leap :: "nat \<Rightarrow> bool" where
  "is_leap y \<longleftrightarrow> y mod 4 = 0 \<and> (y mod 100 \<noteq> 0 \<or> y mod 400 = 0)"

definition days_in_month :: "nat \<Rightarrow> nat \<Rightarrow> nat" where
  "days_in_month y m =
     (if m = 2 \<and> is_leap y then 29 else [0, 31, 28, 31, 30, 31, 30, 31, 31, 30, 31, 30, 31] ! m)"

definition days_before_year :: "nat \<Rightarrow> nat" where
  "days_before_year y = (y - 1) * 365 + (y - 1) div 4 - (y - 1) div 100 + (y - 1) div 400"

definition days_before_month :: "nat \<Rightarrow> nat \<Rightarrow> nat" where
  "days_before_month y m =
     [0, 0, 31, 59, 90, 120, 151, 181, 212, 243, 273, 304, 334] ! m
       + (if 2 < m \<and> is_leap y then 1 else 0)"

definition ymd2ord :: "nat \<Rightarrow> nat \<Rightarrow> nat \<Rightarrow> nat" where
  "ymd2ord y m d = days_before_year y + days_before_month y m + d"

definition mk_datetime :: "nat \<Rightarrow> nat \<Rightarrow> nat \<Rightarrow> nat \<Rightarrow> nat \<Rightarrow> datetime" where
  "mk_datetime y m d hh mm =
     (((int (ymd2ord y m d) - 1) * 24 + int hh) * 60 + int mm) * 60000000"

text \<open>\<^verbatim>\<open>datetime.strptime(s, "%Y-%m-%d %H:%M")\<close>\<close>

definition strptime_YmdHM :: "string \<Rightarrow> error + datetime" where
  "strptime_YmdHM s =
     (case concat (map (\<lambda>(y, m, d, r1). concat (map (\<lambda>r2.
               map (\<lambda>(hh, mm, r3). (y, m, d, hh, mm, r3)) (match_HM r2)) (ws_plus r1)))
             (match_Ymd s)) of
        [] \<Rightarrow> Inl ValueError
      | (y, m, d, hh, mm, r) # _ \<Rightarrow>
          if r \<noteq> [] then Inl ValueError
          else if py_int y < 1 \<or> days_in_month (py_int y) (py_int m) < py_int d then Inl ValueError
          else Inr (mk_datetime (py_int y) (py_int m) (py_int d) (py_int hh) (py_int mm)))"

definition hours24 :: int where
  "hours24 = 24 * 60 * 60 * 1000000"


section \<open>Reminders (handlers.py, bot.py)\<close>

text \<open>
  The live job scheduler keeps its jobs under their ids; \<^verbatim>\<open>add_job\<close> with
  \<^verbatim>\<open>replace_existing=True\<close> stores the job under its id whether or not one was there.
  A job holds its fire time and what the callback \<^verbatim>\<open>send_reminder\<close> captured.
\<close>

record job =
  run_date :: datetime
  to_user :: int
  time_text :: string

type_synonym scheduler = "string \<Rightarrow> job option"

definition reminder_job_id :: "int \<Rightarrow> string" where
  "reminder_job_id k = ''reminder_'' @ str_int k"

text \<open>
  \<^verbatim>\<open>schedule_reminder\<close>; \<open>now\<close> is what \<^verbatim>\<open>datetime.now()\<close> returns inside it.  The
  result is the scheduler and the store it leaves behind, and the exception if one was
  raised.
\<close>

definition schedule_reminder ::
  "scheduler \<Rightarrow> database \<Rightarrow> datetime \<Rightarrow> int \<Rightarrow> int \<Rightarrow> string \<Rightarrow> string
     \<Rightarrow> (scheduler \<times> database) \<times> error option" where
  "schedule_reminder sched db now k user_tg_id date_str time_str =
     (case strptime_YmdHM (date_str @ '' '' @ time_str) of
        Inl e \<Rightarrow> ((sched, db), Some e)
      | Inr dt_slot \<Rightarrow>
          if dt_slot - hours24 < 0 then ((sched, db), Some OverflowError)
          else
            (let at = dt_slot - hours24 in
             if at \<le> now then ((sched, db), None)
             else
               (let j = reminder_job_id k;
                    sched' = sched(j \<mapsto> \<lparr>run_date = at, to_user = user_tg_id, time_text = time_str\<rparr>)
                in case save_reminder db k at j of
                     Inl e \<Rightarrow> ((sched', db), Some e)
                   | Inr db' \<Rightarrow> ((sched', db'), None))))"

text \<open>
  The rows of \<^verbatim>\<open>get_all_reminders\<close>: every reminder joined with its booking, the
  booking's user and the booking's slot.
\<close>

record reminder_row =
  r_booking_id :: int
  r_run_at :: datetime
  r_status :: string
  r_tg_id :: int
  r_date :: string
  r_time :: string

definition get_all_reminders :: "database \<Rightarrow> reminder_row list" where
  "get_all_reminders db =
     concat (map (\<lambda>r. concat (map (\<lambda>b. concat (map (\<lambda>u. concat (map (\<lambda>s.
         if bid b = booking_id r \<and> uid u = user_id b \<and> sid s = slot_id b
         then [\<lparr>r_booking_id = booking_id r, r_run_at = run_at r, r_status = status b,
                 r_tg_id = tg_id u, r_date = sdate s, r_time = stime s\<rparr>]
         else []) (slots db))) (users db))) (bookings db))) (reminders db))"

text \<open>
  The loop of \<^verbatim>\<open>restore_reminders\<close> over the rows read at its start.  \<open>now\<close> is the
  clock reading \<^verbatim>\<open>restore_reminders\<close> takes before the loop; \<open>clock k\<close> is the later
  reading \<^verbatim>\<open>schedule_reminder\<close> takes when it is called for booking \<open>k\<close>.  An exception
  ends the loop.
\<close>

fun restore_loop ::
  "datetime \<Rightarrow> (int \<Rightarrow> datetime) \<Rightarrow> reminder_row list \<Rightarrow> scheduler \<Rightarrow> database
     \<Rightarrow> (scheduler \<times> database) \<times> error option" where
  "restore_loop now clock [] sched db = ((sched, db), None)"
| "restore_loop now clock (r # rows) sched db =
     (if r_status r \<noteq> ''active'' \<or> r_run_at r \<le> now then
        (case delete_reminder db (r_booking_id r) of
           Inl e \<Rightarrow> ((sched, db), Some e)
         | Inr (db', _) \<Rightarrow> restore_loop now clock rows sched db')
      else
        (case schedule_reminder sched db (clock (r_booking_id r)) (r_booking_id r) (r_tg_id r)
                (r_date r) (r_time r) of
           (st, Some e) \<Rightarrow> (st, Some e)
         | ((sched', db'), None) \<Rightarrow> restore_loop now clock rows sched' db'))"

definition restore_reminders ::
  "scheduler \<Rightarrow> database \<Rightarrow> datetime \<Rightarrow> (int \<Rightarrow> datetime)
     \<Rightarrow> (scheduler \<times> database) \<times> error option" where
  "restore_reminders sched db now clock = restore_loop now clock (get_all_reminders db) sched db"

section \<open>The handlers that change the store (handlers.py)\<close>

text \<open>
  What a handler shows to the user, one constructor per text in the source.
  \<open>BookingFailed\<close> is the single text of the failure branch of \<^verbatim>\<open>confirm_booking\<close>
  (it names both possible causes); \<open>NotFoundOrCancelled\<close> is the alert of
  \<^verbatim>\<open>user_cancel_booking\<close>.  The messages to the administrator and to the channel are
  sent inside \<^verbatim>\<open>try\<close> blocks after the store has been changed and are left out, and so
  is the formatting of the date in the texts.
\<close>

datatype reply =
    SlotNotChosen
  | BookingFailed
  | SlotLostAfterBooking
  | BookingCreated string string "string option" "string option"
  | NotFoundOrCancelled
  | BookingCancelled string string

record fsm_data =
  chosen_slot_id :: "int option"
  data_name :: "string option"
  data_phone :: "string option"

text \<open>
  \<^verbatim>\<open>confirm_booking\<close>: \<open>now1\<close> is the clock reading inside \<^verbatim>\<open>book_slot\<close>, \<open>now2\<close> the
  one inside \<^verbatim>\<open>schedule_reminder\<close>, \<open>from_id\<close> is \<^verbatim>\<open>callback.from_user.id\<close>.
\<close>

definition confirm_booking ::
  "scheduler \<Rightarrow> database \<Rightarrow> datetime \<Rightarrow> datetime \<Rightarrow> int \<Rightarrow> fsm_data
     \<Rightarrow> (scheduler \<times> database) \<times> (error + reply)" where
  "confirm_booking sched db now1 now2 from_id data =
     (case chosen_slot_id data of
        None \<Rightarrow> ((sched, db), Inr SlotNotChosen)
      | Some i \<Rightarrow>
          (case update_user_info db from_id (data_name data) (data_phone data) of
             Inl e \<Rightarrow> ((sched, db), Inl e)
           | Inr db1 \<Rightarrow>
               (case book_slot db1 now1 from_id i of
                  (db2, Inl e) \<Rightarrow> ((sched, db2), Inl e)
                | (db2, Inr None) \<Rightarrow> ((sched, db2), Inr BookingFailed)
                | (db2, Inr (Some k)) \<Rightarrow>
                    (case get_slot db2 i of
                       Inl e \<Rightarrow> ((sched, db2), Inl e)
                     | Inr None \<Rightarrow> ((sched, db2), Inr SlotLostAfterBooking)
                     | Inr (Some s) \<Rightarrow>
                         (case schedule_reminder sched db2 now2 k from_id (sdate s) (stime s) of
                            (st, Some e) \<Rightarrow> (st, Inl e)
                          | (st, None) \<Rightarrow>
                              (st, Inr (BookingCreated (sdate s) (stime s) (data_name data)
                                          (data_phone data))))))))"

text \<open>
  \<^verbatim>\<open>user_cancel_booking\<close>, from the booking id parsed out of the callback data.
  \<^verbatim>\<open>remove_job\<close> may raise inside its \<^verbatim>\<open>try\<close> block; either way the job is not there
  afterwards.
\<close>

definition user_cancel_booking ::
  "scheduler \<Rightarrow> database \<Rightarrow> int \<Rightarrow> (scheduler \<times> database) \<times> (error + reply)" where
  "user_cancel_booking sched db k =
     (case delete_reminder db k of
        Inl e \<Rightarrow> ((sched, db), Inl e)
      | Inr (db1, j) \<Rightarrow>
          (let sched1 = (case j of None \<Rightarrow> sched
                         | Some jid \<Rightarrow> if jid \<noteq> [] then sched(jid := None) else sched)
           in case cancel_booking db1 k of
                Inl e \<Rightarrow> ((sched1, db1), Inl e)
              | Inr (db2, None) \<Rightarrow> ((sched1, db2), Inr NotFoundOrCancelled)
              | Inr (db2, Some (d, t)) \<Rightarrow> ((sched1, db2), Inr (BookingCancelled d t))))"

text \<open>
  \<^verbatim>\<open>admin_add_times\<close>: a sender who is not the configured administrator is turned
  away, and so is a dialogue that holds no day.  The day in the dialogue state was put
  there by \<^verbatim>\<open>admin_add_day_date\<close> as the \<^verbatim>\<open>isoformat\<close> of a date, which
  \<^verbatim>\<open>date.fromisoformat\<close> reads back, so the state is modelled as holding the date.  The
  message text loses its spaces, is split at the commas, and every non-empty part that
  parses as a time becomes a slot; a part that does not parse is passed over; the count
  of created slots is reported.
\<close>

fun split_comma :: "string \<Rightarrow> string list" where
  "split_comma [] = [[]]"
| "split_comma (c # cs) =
     (if c = CHR '','' then [] # split_comma cs
      else (case split_comma cs of p # ps \<Rightarrow> (c # p) # ps | [] \<Rightarrow> [[c]]))"

definition parts_of :: "string \<Rightarrow> string list" where
  "parts_of text = filter (\<lambda>p. p \<noteq> []) (split_comma (filter (\<lambda>c. c \<noteq> CHR '' '') text))"

fun add_times :: "database \<Rightarrow> date \<Rightarrow> string list \<Rightarrow> nat \<Rightarrow> database \<times> nat" where
  "add_times db dt [] created = (db, created)"
| "add_times db dt (p # parts) created =
     (case strptime_HM p of
        Inl e \<Rightarrow> add_times db dt parts created
      | Inr tm \<Rightarrow> add_times (create_slot db dt tm) dt parts (created + 1))"

datatype admin_reply = NoRights | DayNotFound | SlotsCreated nat date

definition admin_add_times ::
  "int \<Rightarrow> database \<Rightarrow> int \<Rightarrow> date option \<Rightarrow> string \<Rightarrow> database \<times> admin_reply" where
  "admin_add_times admin_id db from_id admin_day text =
     (if from_id \<noteq> admin_id then (db, NoRights)
      else case admin_day of
             None \<Rightarrow> (db, DayNotFound)
           | Some dt \<Rightarrow>
               (case add_times db dt (parts_of text) 0 of
                  (db1, created) \<Rightarrow> (db1, SlotsCreated created dt)))"


section \<open>Invariants of the store\<close>

text \<open>
  The active bookings that reference a slot, and those of a user row.
\<close>

definition active_on_slot :: "database \<Rightarrow> int \<Rightarrow> booking list" where
  "active_on_slot db i = filter (\<lambda>b. slot_id b = i \<and> status b = ''active'') (bookings db)"

definition active_of_user :: "database \<Rightarrow> int \<Rightarrow> booking list" where
  "active_of_user db u = filter (\<lambda>b. user_id b = u \<and> status b = ''active'') (bookings db)"

text \<open>
  \<open>keys_ok\<close>: what the schema and the id counters give (primary keys and the unique
  Telegram id are distinct, no id exceeds its counter, bookings reference existing users
  and slots).  \<open>ledger_ok\<close>: an available slot has no active booking, and no slot and no
  user has more than one.
\<close>

definition keys_ok :: "database \<Rightarrow> bool" where
  "keys_ok db \<longleftrightarrow>
     distinct (map uid (users db)) \<and> distinct (map tg_id (users db)) \<and>
     distinct (map sid (slots db)) \<and> distinct (map bid (bookings db)) \<and>
     (\<forall>i\<in>set (map uid (users db)). i \<le> seq_users db) \<and>
     (\<forall>i\<in>set (map sid (slots db)). i \<le> seq_slots db) \<and>
     (\<forall>i\<in>set (map bid (bookings db)). i \<le> seq_bookings db) \<and>
     set (map user_id (bookings db)) \<subseteq> set (map uid (users db)) \<and>
     set (map slot_id (bookings db)) \<subseteq> set (map sid (slots db))"

definition ledger_ok :: "database \<Rightarrow> bool" where
  "ledger_ok db \<longleftrightarrow>
     (\<forall>s\<in>set (slots db). is_available s \<longrightarrow> active_on_slot db (sid s) = []) \<and>
     (\<forall>i. length (active_on_slot db i) \<le> 1) \<and>
     (\<forall>u. length (active_of_user db u) \<le> 1)"

text \<open>The store after the two writes of a successful \<^verbatim>\<open>book_slot\<close>, and after those of a
  successful \<^verbatim>\<open>cancel_booking\<close>.\<close>

definition booked :: "database \<Rightarrow> datetime \<Rightarrow> int \<Rightarrow> int \<Rightarrow> database" where
  "booked db1 now u i =
     db1\<lparr>slots := map (\<lambda>s. if sid s = i then s\<lparr>is_available := False\<rparr> else s) (slots db1),
         bookings := bookings db1 @
            [\<lparr>bid = seq_bookings db1 + 1, user_id = u, slot_id = i, status = ''active'',
              created_at = now\<rparr>],
         seq_bookings := seq_bookings db1 + 1\<rparr>"

definition cancelled :: "database \<Rightarrow> int \<Rightarrow> int \<Rightarrow> database" where
  "cancelled db k i =
     db\<lparr>bookings := map (\<lambda>b. if bid b = k then b\<lparr>status := ''cancelled''\<rparr> else b) (bookings db),
        slots := map (\<lambda>s. if sid s = i then s\<lparr>is_available := True\<rparr> else s) (slots db)\<rparr>"

text \<open>
  The operations on the durable store named by the claims, and the store reached from
  the empty one by a sequence of them.  An operation that raises leaves the store as the
  code leaves it.
\<close>

datatype op = CreateSlot date time | CloseDay date | BookSlot datetime int int | CancelBooking int

fun apply_op :: "database \<Rightarrow> op \<Rightarrow> database" where
  "apply_op db (CreateSlot d t) = create_slot db d t"
| "apply_op db (CloseDay d) = close_day db d"
| "apply_op db (BookSlot now tg i) = fst (book_slot db now tg i)"
| "apply_op db (CancelBooking k) =
     (case cancel_booking db k of Inl e \<Rightarrow> db | Inr (db', r) \<Rightarrow> db')"

definition run :: "op list \<Rightarrow> database" where
  "run ops = foldl apply_op init_db ops"

section \<open>Concrete stores used in the examples\<close>

definition day1 :: date where
  "day1 = \<lparr>year = 2025, month = 6, day = 10\<rparr>"

text \<open>
  Two slots on 2025-06-10 (14:00 with id 1, 15:00 with id 2); the client with Telegram
  id 7 has booked slot 1.
\<close>

definition scenario_ops :: "op list" where
  "scenario_ops = [CreateSlot day1 \<lparr>hour = 14, minute = 0\<rparr>, CreateSlot day1 \<lparr>hour = 15, minute = 0\<rparr>,
                   BookSlot 0 7 1]"

definition scenario_db :: database where
  "scenario_db = run scenario_ops"



text \<open>The same store with a reminder record and a live job for booking 1.\<close>

definition reminded_db :: database where
  "reminded_db =
     scenario_db\<lparr>reminders := [\<lparr>rid = 1, booking_id = 1, run_at = 63885074400000000,
                                 job_id = ''reminder_1''\<rparr>],
                 seq_reminders := 1\<rparr>"

definition reminded_sched :: scheduler where
  "reminded_sched =
     [''reminder_1'' \<mapsto> \<lparr>run_date = 63885074400000000, to_user = 7, time_text = ''14:00''\<rparr>]"

text \<open>The times among the parts that \<^verbatim>\<open>strptime\<close> accepts, in order.\<close>

definition parsed_times :: "string list \<Rightarrow> time list" where
  "parsed_times parts =
     List.map_filter (\<lambda>p. case strptime_HM p of Inl e \<Rightarrow> None | Inr tm \<Rightarrow> Some tm) parts"

text \<open>The slot rows that \<^verbatim>\<open>create_slot\<close> makes for a list of times, from the id counter \<open>n\<close> on.\<close>

fun new_slots :: "int \<Rightarrow> date \<Rightarrow> time list \<Rightarrow> slot list" where
  "new_slots n dt [] = []"
| "new_slots n dt (tm # tms) =
     \<lparr>sid = n + 1, sdate = isoformat dt, stime = strftime_HM tm, is_available = True\<rparr>
       # new_slots (n + 1) dt tms"

definition day2 :: date where
  "day2 = \<lparr>year = 2025, month = 6, day = 11\<rparr>"

section \<open>Basic facts\<close>

lemma iso_day1: "isoformat day1 = ''2025-06-10''"
  by code_simp

lemma hm_1400: "strftime_HM \<lparr>hour = 14, minute = 0\<rparr> = ''14:00''"
  by code_simp

lemma hm_1500: "strftime_HM \<lparr>hour = 15, minute = 0\<rparr> = ''15:00''"
  by code_simp

lemma scenario_db_eq:
  "scenario_db =
     \<lparr>users = [\<lparr>uid = 1, tg_id = 7, uname = None, phone = None, last_menu_message_id = None\<rparr>],
      slots = [\<lparr>sid = 1, sdate = ''2025-06-10'', stime = ''14:00'', is_available = False\<rparr>,
               \<lparr>sid = 2, sdate = ''2025-06-10'', stime = ''15:00'', is_available = True\<rparr>],
      bookings = [\<lparr>bid = 1, user_id = 1, slot_id = 1, status = ''active'', created_at = 0\<rparr>],
      reminders = [], seq_users = 1, seq_slots = 2, seq_bookings = 1, seq_reminders = 0\<rparr>"
  by (simp add: scenario_db_def scenario_ops_def run_def book_slot_def create_slot_def init_db_def
      get_or_create_user_def active_bookings_by_tg_def int64_def Let_def iso_day1 hm_1400 hm_1500)

lemma find_append_new:
  "find P xs = None \<Longrightarrow> P x \<Longrightarrow> find P (xs @ [x]) = Some x"
  by (induction xs) (auto split: if_splits)

lemma find_append_first:
  "find P xs = None \<Longrightarrow> find P (xs @ ys) = find P ys"
  by (induction xs) (auto split: if_splits)

lemma find_append_hit: "P x \<Longrightarrow> \<exists>y. find P (xs @ [x]) = Some y"
  by (induction xs) auto

lemma find_SomeD: "find P xs = Some x \<Longrightarrow> x \<in> set xs \<and> P x"
  unfolding find_Some_iff by (metis nth_mem)

lemma length_le_1_mem: "length xs \<le> 1 \<Longrightarrow> x \<in> set xs \<Longrightarrow> xs = [x]"
  by (cases xs) auto

lemma fresh_id: "\<forall>i\<in>set xs. i \<le> (n::int) \<Longrightarrow> n + 1 \<notin> set xs"
  by auto

lemma bound_step: "\<forall>i\<in>set xs. i \<le> (n::int) \<Longrightarrow> \<forall>i\<in>set xs. i \<le> n + 1"
  by auto

lemma sid_avail_comp [simp]:
  "sid \<circ> (\<lambda>s. if P s then s\<lparr>is_available := v\<rparr> else s) = sid"
  by (auto simp: fun_eq_iff)

lemma status_keep_comp [simp]:
  "bid \<circ> (\<lambda>b. if P b then b\<lparr>status := v\<rparr> else b) = bid"
  "user_id \<circ> (\<lambda>b. if P b then b\<lparr>status := v\<rparr> else b) = user_id"
  "slot_id \<circ> (\<lambda>b. if P b then b\<lparr>status := v\<rparr> else b) = slot_id"
  by (auto simp: fun_eq_iff)

lemma active_by_tg_empty_iff:
  "active_bookings_by_tg db tg = [] \<longleftrightarrow>
     (\<forall>b\<in>set (bookings db). \<forall>u\<in>set (users db).
        \<not> (uid u = user_id b \<and> tg_id u = tg \<and> status b = ''active''))"
  by (auto simp: active_bookings_by_tg_def)

subsection \<open>get_or_create_user\<close>

lemma get_or_create_user_new:
  "int64 tg \<Longrightarrow> find (\<lambda>u. tg_id u = tg) (users db) = None \<Longrightarrow>
   get_or_create_user db tg =
     Inr (db\<lparr>users := users db @ [\<lparr>uid = seq_users db + 1, tg_id = tg, uname = None, phone = None,
                                last_menu_message_id = None\<rparr>],
             seq_users := seq_users db + 1\<rparr>, seq_users db + 1)"
  by (simp add: get_or_create_user_def Let_def find_append_new)

lemma get_or_create_user_old:
  "int64 tg \<Longrightarrow> find (\<lambda>u. tg_id u = tg) (users db) = Some usr \<Longrightarrow>
   get_or_create_user db tg = Inr (db, uid usr)"
  by (simp add: get_or_create_user_def)

lemma get_or_create_user_raises:
  "\<not> int64 tg \<Longrightarrow> get_or_create_user db tg = Inl OverflowError"
  by (simp add: get_or_create_user_def)

lemma get_or_create_user_cases:
  obtains (raises) "\<not> int64 tg" "get_or_create_user db tg = Inl OverflowError"
  | (old) usr where "int64 tg" "find (\<lambda>u. tg_id u = tg) (users db) = Some usr"
      "get_or_create_user db tg = Inr (db, uid usr)"
  | (new) "int64 tg" "find (\<lambda>u. tg_id u = tg) (users db) = None"
      "get_or_create_user db tg =
         Inr (db\<lparr>users := users db @ [\<lparr>uid = seq_users db + 1, tg_id = tg, uname = None,
                  phone = None, last_menu_message_id = None\<rparr>], seq_users := seq_users db + 1\<rparr>,
              seq_users db + 1)"
proof (cases "int64 tg")
  case False
  then show ?thesis using raises get_or_create_user_raises by blast
next
  case True
  then show ?thesis
    using get_or_create_user_new get_or_create_user_old old new
    by (cases "find (\<lambda>u. tg_id u = tg) (users db)") blast+
qed

lemma get_or_create_user_frame:
  assumes "get_or_create_user db tg = Inr (db1, u)"
  shows "slots db1 = slots db" "bookings db1 = bookings db" "reminders db1 = reminders db"
    "seq_slots db1 = seq_slots db" "seq_bookings db1 = seq_bookings db"
    "seq_reminders db1 = seq_reminders db"
  using assms by (cases rule: get_or_create_user_cases[of tg db]; auto)+


subsection \<open>The key invariant\<close>

lemma keys_ok_init: "keys_ok init_db"
  by (simp add: keys_ok_def init_db_def)

lemma keys_ok_create_slot:
  assumes "keys_ok db"
  shows "keys_ok (create_slot db d t)"
proof -
  from assms have b: "\<forall>i\<in>set (map sid (slots db)). i \<le> seq_slots db"
    by (simp add: keys_ok_def)
  from b have 1: "seq_slots db + 1 \<notin> set (map sid (slots db))" by (rule fresh_id)
  from b have 2: "\<forall>i\<in>set (map sid (slots db)). i \<le> seq_slots db + 1" by (rule bound_step)
  from assms 1 2 show ?thesis
    unfolding keys_ok_def create_slot_def
    by (simp del: set_map add: subset_insertI2)
qed

lemma keys_ok_close_day: "keys_ok db \<Longrightarrow> keys_ok (close_day db d)"
  unfolding keys_ok_def close_day_def by (simp del: set_map)

lemma keys_ok_add_user:
  assumes "keys_ok db" "tg \<notin> set (map tg_id (users db))"
  shows "keys_ok (db\<lparr>users := users db @ [\<lparr>uid = seq_users db + 1, tg_id = tg, uname = None,
            phone = None, last_menu_message_id = None\<rparr>], seq_users := seq_users db + 1\<rparr>)"
proof -
  from assms have b: "\<forall>i\<in>set (map uid (users db)). i \<le> seq_users db"
    by (simp add: keys_ok_def)
  from b have 1: "seq_users db + 1 \<notin> set (map uid (users db))" by (rule fresh_id)
  from b have 2: "\<forall>i\<in>set (map uid (users db)). i \<le> seq_users db + 1" by (rule bound_step)
  from assms 1 2 show ?thesis
    unfolding keys_ok_def
    by (simp del: set_map add: subset_insertI2)
qed

lemma keys_ok_get_or_create_user:
  assumes "keys_ok db" "get_or_create_user db tg = Inr (db1, u)"
  shows "keys_ok db1"
proof (cases rule: get_or_create_user_cases[of tg db])
  case raises
  with assms show ?thesis by simp
next
  case (old usr)
  with assms show ?thesis by simp
next
  case new
  from new(2) have "tg \<notin> set (map tg_id (users db))"
    by (auto simp: find_None_iff)
  from keys_ok_add_user[OF assms(1) this] new(3) assms(2) show ?thesis by simp
qed

lemma get_or_create_user_member:
  assumes "get_or_create_user db tg = Inr (db1, u)"
  shows "u \<in> set (map uid (users db1))"
proof (cases rule: get_or_create_user_cases[of tg db])
  case raises
  with assms show ?thesis by simp
next
  case (old usr)
  then have "usr \<in> set (users db)" by (simp add: find_SomeD)
  with old assms show ?thesis by auto
next
  case new
  with assms show ?thesis by auto
qed

lemma get_or_create_user_tg:
  assumes "get_or_create_user db tg = Inr (db1, u)"
  shows "\<exists>usr\<in>set (users db1). uid usr = u \<and> tg_id usr = tg"
proof (cases rule: get_or_create_user_cases[of tg db])
  case raises
  with assms show ?thesis by simp
next
  case (old usr)
  then have "usr \<in> set (users db)" "tg_id usr = tg" using find_SomeD by fastforce+
  with old assms show ?thesis by auto
next
  case new
  with assms show ?thesis by auto
qed

lemma get_or_create_user_no_active:
  assumes "keys_ok db" "active_bookings_by_tg db tg = []"
    "get_or_create_user db tg = Inr (db1, u)"
  shows "active_of_user db u = []"
proof (cases rule: get_or_create_user_cases[of tg db])
  case raises
  with assms show ?thesis by simp
next
  case (old usr)
  then have "usr \<in> set (users db)" "tg_id usr = tg" using find_SomeD by fastforce+
  moreover from old assms have "u = uid usr" by simp
  ultimately show ?thesis using assms(2)
    by (auto simp: active_by_tg_empty_iff active_of_user_def filter_empty_conv)
next
  case new
  with assms have u: "u = seq_users db + 1" by simp
  from assms(1) have "\<forall>i\<in>set (map uid (users db)). i \<le> seq_users db"
    "set (map user_id (bookings db)) \<subseteq> set (map uid (users db))"
    by (simp_all add: keys_ok_def)
  then have "seq_users db + 1 \<notin> set (map user_id (bookings db))"
    using fresh_id by blast
  then have "\<forall>b\<in>set (bookings db). user_id b \<noteq> seq_users db + 1"
    by (metis image_eqI set_map)
  with u show ?thesis by (simp add: active_of_user_def filter_empty_conv)
qed

subsection \<open>book_slot along its paths\<close>

lemma book_slot_success:
  assumes k: "keys_ok db" and a: "active_bookings_by_tg db tg = []"
    and s: "find (\<lambda>s. sid s = i) (slots db) = Some s" "is_available s"
    and r: "int64 tg" "int64 i"
    and g: "get_or_create_user db tg = Inr (db1, u)"
  shows "book_slot db now tg i = (booked db1 now u i, Inr (Some (seq_bookings db + 1)))"
proof -
  from g have fr: "slots db1 = slots db" "bookings db1 = bookings db"
    "seq_bookings db1 = seq_bookings db"
    by (simp_all add: get_or_create_user_frame)
  from get_or_create_user_no_active[OF k a g]
  have "find (\<lambda>b. user_id b = u \<and> slot_id b = i \<and> status b = ''active'') (bookings db) = None"
    by (auto simp: active_of_user_def filter_empty_conv find_None_iff)
  then have "find (\<lambda>b. user_id b = u \<and> slot_id b = i \<and> status b = ''active'')
      (bookings db @ [\<lparr>bid = seq_bookings db + 1, user_id = u, slot_id = i, status = ''active'',
              created_at = now\<rparr>]) = Some \<lparr>bid = seq_bookings db + 1, user_id = u, slot_id = i,
              status = ''active'', created_at = now\<rparr>"
    by (simp add: find_append_first)
  with a s r g fr show ?thesis
    by (simp add: book_slot_def Let_def booked_def)
qed

lemma book_slot_cases:
  obtains (bad_tg) "\<not> int64 tg" "book_slot db now tg i = (db, Inl OverflowError)"
  | (already) "int64 tg" "active_bookings_by_tg db tg \<noteq> []"
      "book_slot db now tg i = (db, Inr None)"
  | (bad_slot) db1 u where "int64 tg" "active_bookings_by_tg db tg = []"
      "get_or_create_user db tg = Inr (db1, u)" "\<not> int64 i"
      "book_slot db now tg i = (db1, Inl OverflowError)"
  | (unavailable) db1 u where "int64 tg" "int64 i" "active_bookings_by_tg db tg = []"
      "get_or_create_user db tg = Inr (db1, u)"
      "find (\<lambda>s. sid s = i) (slots db) = None \<or>
       (\<exists>s. find (\<lambda>s. sid s = i) (slots db) = Some s \<and> \<not> is_available s)"
      "book_slot db now tg i = (db1, Inr None)"
  | (booked) db1 u s where "int64 tg" "int64 i" "active_bookings_by_tg db tg = []"
      "get_or_create_user db tg = Inr (db1, u)"
      "find (\<lambda>s. sid s = i) (slots db) = Some s" "is_available s"
      "fst (book_slot db now tg i) = booked db1 now u i"
      "\<exists>k. snd (book_slot db now tg i) = Inr (Some k)"
proof (cases "int64 tg")
  case False
  then show ?thesis using bad_tg by (simp add: book_slot_def)
next
  case tg: True
  show ?thesis
  proof (cases "active_bookings_by_tg db tg = []")
    case False
    with tg show ?thesis using already by (simp add: book_slot_def)
  next
    case True
    from tg obtain db1 u where g: "get_or_create_user db tg = Inr (db1, u)"
      by (cases rule: get_or_create_user_cases[of tg db]) auto
    then have fr: "slots db1 = slots db" by (simp add: get_or_create_user_frame)
    show ?thesis
    proof (cases "int64 i")
      case False
      with tg True g have "book_slot db now tg i = (db1, Inl OverflowError)"
        by (simp add: book_slot_def)
      with tg True g False show ?thesis using bad_slot by blast
    next
      case i: True
      show ?thesis
      proof (cases "find (\<lambda>s. sid s = i) (slots db)")
        case None
        with tg i True g fr have "book_slot db now tg i = (db1, Inr None)"
          by (simp add: book_slot_def)
        with tg i True g None show ?thesis using unavailable by blast
      next
        case (Some s)
        show ?thesis
        proof (cases "is_available s")
          case False
          with tg i True g fr Some have "book_slot db now tg i = (db1, Inr None)"
            by (simp add: book_slot_def)
          with tg i True g Some False show ?thesis using unavailable by blast
        next
          case av: True
          have "\<exists>y. find (\<lambda>b. user_id b = u \<and> slot_id b = i \<and> status b = ''active'')
                  (bookings db1 @ [\<lparr>bid = seq_bookings db1 + 1, user_id = u, slot_id = i,
                     status = ''active'', created_at = now\<rparr>]) = Some y"
            by (rule find_append_hit) simp
          with av tg i True g fr Some have "fst (book_slot db now tg i) = booked db1 now u i"
            "\<exists>k. snd (book_slot db now tg i) = Inr (Some k)"
            by (auto simp: book_slot_def Let_def booked_def)
          with tg i True g Some av show ?thesis using booked by blast
        qed
      qed
    qed
  qed
qed


subsection \<open>The failure branch of confirm_booking\<close>

lemma join_user_update:
  "(\<lambda>u. if uid u = x \<and> tg_id u = tg \<and> P then [b] else []) \<circ>
     (\<lambda>u. if tg_id u = tg' then u\<lparr>uname := nm, phone := ph\<rparr> else u) =
   (\<lambda>u. if uid u = x \<and> tg_id u = tg \<and> P then [b] else [])"
  by (auto simp: fun_eq_iff)

lemma active_by_tg_update_user_info:
  "update_user_info db tg' nm ph = Inr db1 \<Longrightarrow>
   active_bookings_by_tg db1 tg = active_bookings_by_tg db tg \<and> slots db1 = slots db \<and>
   bookings db1 = bookings db"
  by (auto simp: update_user_info_def active_bookings_by_tg_def join_user_update split: if_splits)

lemma book_slot_already_booked:
  "int64 tg \<Longrightarrow> active_bookings_by_tg db tg \<noteq> [] \<Longrightarrow> book_slot db now tg i = (db, Inr None)"
  by (simp add: book_slot_def)

lemma book_slot_slot_unavailable:
  assumes "int64 tg" "int64 i"
    "find (\<lambda>s. sid s = i) (slots db) = None \<or>
     (\<exists>s. find (\<lambda>s. sid s = i) (slots db) = Some s \<and> \<not> is_available s)"
  shows "snd (book_slot db now tg i) = Inr None"
  using assms by (cases rule: book_slot_cases[where db=db and tg=tg and now=now and i=i]) auto

lemma book_slot_slot_overflow:
  assumes "int64 tg" "\<not> int64 i" "active_bookings_by_tg db tg = []"
  shows "snd (book_slot db now tg i) = Inl OverflowError"
  using assms by (cases rule: book_slot_cases[where db=db and tg=tg and now=now and i=i]) auto

lemma book_slot_None_cause:
  assumes "snd (book_slot db now tg i) = Inr None"
  shows "int64 tg \<and> (active_bookings_by_tg db tg \<noteq> [] \<or>
         int64 i \<and> (find (\<lambda>s. sid s = i) (slots db) = None \<or>
         (\<exists>s. find (\<lambda>s. sid s = i) (slots db) = Some s \<and> \<not> is_available s)))"
  using assms by (cases rule: book_slot_cases[where db=db and tg=tg and now=now and i=i]) auto

lemma confirm_booking_failed:
  assumes "chosen_slot_id data = Some i" "int64 tg"
    and "snd (book_slot db now1 tg i) = Inr None"
  shows "snd (confirm_booking sched db now1 now2 tg data) = Inr BookingFailed"
proof -
  obtain db1 where u: "update_user_info db tg (data_name data) (data_phone data) = Inr db1"
    using assms(2) by (simp add: update_user_info_def)
  then have fr: "active_bookings_by_tg db1 tg = active_bookings_by_tg db tg" "slots db1 = slots db"
    by (simp_all add: active_by_tg_update_user_info)
  from book_slot_None_cause[OF assms(3)] fr
  have "active_bookings_by_tg db1 tg \<noteq> [] \<or>
         int64 i \<and> (find (\<lambda>s. sid s = i) (slots db1) = None \<or>
         (\<exists>s. find (\<lambda>s. sid s = i) (slots db1) = Some s \<and> \<not> is_available s))"
    by simp
  then have "snd (book_slot db1 now1 tg i) = Inr None"
    using assms(2) book_slot_already_booked book_slot_slot_unavailable
    by (metis snd_conv)
  then obtain db2 where "book_slot db1 now1 tg i = (db2, Inr None)"
    by (cases "book_slot db1 now1 tg i") auto
  with assms(1) u show ?thesis by (simp add: confirm_booking_def)
qed


subsection \<open>The ledger invariant\<close>

lemma ledger_ok_init: "ledger_ok init_db"
  by (simp add: ledger_ok_def init_db_def active_on_slot_def active_of_user_def)

lemma ledger_ok_frame:
  "slots db1 = slots db \<Longrightarrow> bookings db1 = bookings db \<Longrightarrow> ledger_ok db1 = ledger_ok db"
  by (simp add: ledger_ok_def active_on_slot_def active_of_user_def)

lemma ledger_ok_availableD:
  "ledger_ok db \<Longrightarrow> s \<in> set (slots db) \<Longrightarrow> is_available s \<Longrightarrow> active_on_slot db (sid s) = []"
  unfolding ledger_ok_def by blast

lemma ledger_ok_close_day: "ledger_ok db \<Longrightarrow> ledger_ok (close_day db d)"
  unfolding ledger_ok_def close_day_def active_on_slot_def active_of_user_def
  by auto

lemma ledger_ok_create_slot:
  assumes "keys_ok db" "ledger_ok db"
  shows "ledger_ok (create_slot db d t)"
proof -
  from assms(1) have "\<forall>i\<in>set (map sid (slots db)). i \<le> seq_slots db"
    "set (map slot_id (bookings db)) \<subseteq> set (map sid (slots db))"
    by (simp_all add: keys_ok_def)
  then have "seq_slots db + 1 \<notin> set (map slot_id (bookings db))"
    using fresh_id by blast
  then have "\<forall>b\<in>set (bookings db). slot_id b \<noteq> seq_slots db + 1"
    by (metis image_eqI set_map)
  then have n: "active_on_slot db (seq_slots db + 1) = []"
    by (simp add: active_on_slot_def filter_empty_conv)
  have a: "active_on_slot (create_slot db d t) j = active_on_slot db j" for j
    by (simp add: active_on_slot_def create_slot_def)
  have b: "active_of_user (create_slot db d t) j = active_of_user db j" for j
    by (simp add: active_of_user_def create_slot_def)
  have c: "slots (create_slot db d t) = slots db @
           [\<lparr>sid = seq_slots db + 1, sdate = isoformat d, stime = strftime_HM t,
             is_available = True\<rparr>]"
    by (simp add: create_slot_def)
  from assms(2) n show ?thesis
    unfolding ledger_ok_def a b c by simp
qed

lemma keys_ok_booked:
  assumes "keys_ok db1" "u \<in> set (map uid (users db1))" "i \<in> set (map sid (slots db1))"
  shows "keys_ok (booked db1 now u i)"
proof -
  from assms have b: "\<forall>i\<in>set (map bid (bookings db1)). i \<le> seq_bookings db1"
    by (simp add: keys_ok_def)
  from b have 1: "seq_bookings db1 + 1 \<notin> set (map bid (bookings db1))" by (rule fresh_id)
  from b have 2: "\<forall>i\<in>set (map bid (bookings db1)). i \<le> seq_bookings db1 + 1" by (rule bound_step)
  from assms 1 2 show ?thesis
    unfolding keys_ok_def booked_def
    by (simp del: set_map)
qed

lemma ledger_ok_booked:
  assumes "ledger_ok db1" "active_of_user db1 u = []" "active_on_slot db1 i = []"
  shows "ledger_ok (booked db1 now u i)"
proof -
  have s: "active_on_slot (booked db1 now u i) j =
        (if j = i then [\<lparr>bid = seq_bookings db1 + 1, user_id = u, slot_id = i, status = ''active'',
              created_at = now\<rparr>] else active_on_slot db1 j)" for j
    using assms(3) by (auto simp: active_on_slot_def booked_def)
  have u: "active_of_user (booked db1 now u i) v =
        (if v = u then [\<lparr>bid = seq_bookings db1 + 1, user_id = u, slot_id = i, status = ''active'',
              created_at = now\<rparr>] else active_of_user db1 v)" for v
    using assms(2) by (auto simp: active_of_user_def booked_def)
  have sl: "slots (booked db1 now u i) =
      map (\<lambda>s. if sid s = i then s\<lparr>is_available := False\<rparr> else s) (slots db1)"
    by (simp add: booked_def)
  from assms(1) show ?thesis
    unfolding ledger_ok_def s u sl by auto
qed

lemma ledger_ok_book_slot:
  assumes "keys_ok db" "ledger_ok db"
  shows "ledger_ok (fst (book_slot db now tg i))"
proof (cases rule: book_slot_cases[where db=db and tg=tg and now=now and i=i])
  case bad_tg
  with assms(2) show ?thesis by simp
next
  case already
  with assms(2) show ?thesis by simp
next
  case (bad_slot db1 u)
  then have "slots db1 = slots db" "bookings db1 = bookings db"
    by (simp_all add: get_or_create_user_frame)
  from ledger_ok_frame[OF this] assms(2) have "ledger_ok db1" by simp
  with bad_slot(5) show ?thesis by simp
next
  case (unavailable db1 u)
  then have "slots db1 = slots db" "bookings db1 = bookings db"
    by (simp_all add: get_or_create_user_frame)
  from ledger_ok_frame[OF this] assms(2) have "ledger_ok db1" by simp
  with unavailable(6) show ?thesis by simp
next
  case (booked db1 u s)
  from booked(4) have fr: "slots db1 = slots db" "bookings db1 = bookings db"
    by (simp_all add: get_or_create_user_frame)
  from ledger_ok_frame[OF fr] assms(2) have l1: "ledger_ok db1" by simp
  have "active_of_user db u = []"
    using assms(1) booked(3) booked(4) by (rule get_or_create_user_no_active)
  with fr have a: "active_of_user db1 u = []" by (simp add: active_of_user_def)
  from booked(5) have "s \<in> set (slots db)" "sid s = i"
    using find_SomeD by fastforce+
  with assms(2) booked(6) have "active_on_slot db i = []"
    using ledger_ok_availableD by blast
  with fr have b: "active_on_slot db1 i = []" by (simp add: active_on_slot_def)
  have "ledger_ok (booked db1 now u i)" using l1 a b by (rule ledger_ok_booked)
  with booked(7) show ?thesis by simp
qed

lemma keys_ok_book_slot:
  assumes "keys_ok db"
  shows "keys_ok (fst (book_slot db now tg i))"
proof (cases rule: book_slot_cases[where db=db and tg=tg and now=now and i=i])
  case bad_tg
  with assms show ?thesis by simp
next
  case already
  with assms show ?thesis by simp
next
  case (bad_slot db1 u)
  from assms bad_slot(3) have "keys_ok db1" by (rule keys_ok_get_or_create_user)
  with bad_slot(5) show ?thesis by simp
next
  case (unavailable db1 u)
  from assms unavailable(4) have "keys_ok db1" by (rule keys_ok_get_or_create_user)
  with unavailable(6) show ?thesis by simp
next
  case (booked db1 u s)
  from booked(4) have fr: "slots db1 = slots db"
    by (simp add: get_or_create_user_frame)
  from booked(5) have "s \<in> set (slots db)" "sid s = i"
    using find_SomeD by fastforce+
  then have "i \<in> set (map sid (slots db))" by (metis image_eqI set_map)
  with fr have 3: "i \<in> set (map sid (slots db1))" by simp
  from assms booked(4) have 1: "keys_ok db1" by (rule keys_ok_get_or_create_user)
  from booked(4) have 2: "u \<in> set (map uid (users db1))" by (rule get_or_create_user_member)
  have "keys_ok (booked db1 now u i)" using 1 2 3 by (rule keys_ok_booked)
  with booked(7) show ?thesis by simp
qed

subsection \<open>cancel_booking along its paths\<close>

lemma cancel_booking_cases:
  obtains (bad_id) "\<not> int64 k" "cancel_booking db k = Inl OverflowError"
  | (absent) "int64 k" "find (\<lambda>b. bid b = k \<and> status b = ''active'') (bookings db) = None"
      "cancel_booking db k = Inr (db, None)"
  | (active) row where "int64 k"
      "find (\<lambda>b. bid b = k \<and> status b = ''active'') (bookings db) = Some row"
      "cancel_booking db k =
         Inr (cancelled db k (slot_id row),
              map_option (\<lambda>s. (sdate s, stime s))
                (find (\<lambda>s. sid s = slot_id row) (slots (cancelled db k (slot_id row)))))"
proof (cases "int64 k")
  case False
  then show ?thesis using bad_id by (simp add: cancel_booking_def)
next
  case True
  then show ?thesis using absent active
    by (cases "find (\<lambda>b. bid b = k \<and> status b = ''active'') (bookings db)")
       (simp_all add: cancel_booking_def cancelled_def Let_def)
qed

lemma keys_ok_cancelled: "keys_ok db \<Longrightarrow> keys_ok (cancelled db k i)"
  unfolding keys_ok_def cancelled_def by (simp del: set_map)

lemma filter_cancel_status:
  assumes "\<And>b v. f (b\<lparr>status := v\<rparr>) = f b"
  shows "filter (\<lambda>b. f b = (j::int) \<and> status b = ''active'')
      (map (\<lambda>b. if bid b = k then b\<lparr>status := ''cancelled''\<rparr> else b) xs) =
   filter (\<lambda>b. bid b \<noteq> k) (filter (\<lambda>b. f b = j \<and> status b = ''active'') xs)"
  using assms by (induction xs) auto

lemma active_on_slot_cancelled:
  "active_on_slot (cancelled db k i) j = filter (\<lambda>b. bid b \<noteq> k) (active_on_slot db j)"
  unfolding active_on_slot_def cancelled_def
  by (simp add: filter_cancel_status[where f = slot_id])

lemma active_of_user_cancelled:
  "active_of_user (cancelled db k i) j = filter (\<lambda>b. bid b \<noteq> k) (active_of_user db j)"
  unfolding active_of_user_def cancelled_def
  by (simp add: filter_cancel_status[where f = user_id])

lemma length_filter_le_1: "length xs \<le> 1 \<Longrightarrow> length (filter P xs) \<le> 1"
  by (meson le_trans length_filter_le)

lemma ledger_ok_cancelled:
  assumes "ledger_ok db" "find (\<lambda>b. bid b = k \<and> status b = ''active'') (bookings db) = Some row"
  shows "ledger_ok (cancelled db k (slot_id row))"
proof -
  from assms(1) have le: "length (active_on_slot db j) \<le> 1" "length (active_of_user db j) \<le> 1"
    for j by (simp_all add: ledger_ok_def)
  from assms(2) have "row \<in> set (bookings db) \<and> bid row = k \<and> status row = ''active''"
    by (rule find_SomeD)
  then have r: "row \<in> set (active_on_slot db (slot_id row))" "bid row = k"
    by (simp_all add: active_on_slot_def)
  from le(1) r(1) have "active_on_slot db (slot_id row) = [row]" by (rule length_le_1_mem)
  then have "filter (\<lambda>b. bid b \<noteq> k) (active_on_slot db (slot_id row)) = []"
    using r(2) by simp
  then have e: "active_on_slot (cancelled db k (slot_id row)) (slot_id row) = []"
    by (simp only: active_on_slot_cancelled)
  have 1: "length (active_on_slot (cancelled db k (slot_id row)) j) \<le> 1" for j
    unfolding active_on_slot_cancelled using le(1) by (rule length_filter_le_1)
  have 2: "length (active_of_user (cancelled db k (slot_id row)) j) \<le> 1" for j
    unfolding active_of_user_cancelled using le(2) by (rule length_filter_le_1)
  have 3: "active_on_slot (cancelled db k (slot_id row)) (sid s) = []"
    if "s \<in> set (slots (cancelled db k (slot_id row)))" "is_available s" for s
  proof (cases "sid s = slot_id row")
    case True
    with e show ?thesis by simp
  next
    case False
    with that(1) have "s \<in> set (slots db)" by (auto simp: cancelled_def)
    with assms(1) have "active_on_slot db (sid s) = []"
      using that(2) by (rule ledger_ok_availableD)
    then show ?thesis by (simp add: active_on_slot_cancelled)
  qed
  from 1 2 3 show ?thesis unfolding ledger_ok_def by blast
qed

subsection \<open>Every reachable store satisfies both invariants\<close>

lemma invariants_apply_op:
  assumes "keys_ok db" "ledger_ok db"
  shows "keys_ok (apply_op db x) \<and> ledger_ok (apply_op db x)"
proof (cases x)
  case (CreateSlot d t)
  with assms show ?thesis by (simp add: keys_ok_create_slot ledger_ok_create_slot)
next
  case (CloseDay d)
  with assms show ?thesis by (simp add: keys_ok_close_day ledger_ok_close_day)
next
  case (BookSlot now tg i)
  with assms show ?thesis by (simp add: keys_ok_book_slot ledger_ok_book_slot)
next
  case (CancelBooking k)
  show ?thesis
  proof (cases rule: cancel_booking_cases[of k db])
    case bad_id
    with assms CancelBooking show ?thesis by simp
  next
    case absent
    with assms CancelBooking show ?thesis by simp
  next
    case (active row)
    from assms(1) have "keys_ok (cancelled db k (slot_id row))" by (rule keys_ok_cancelled)
    moreover from assms(2) active(2) have "ledger_ok (cancelled db k (slot_id row))"
      by (rule ledger_ok_cancelled)
    ultimately show ?thesis using CancelBooking active(3) by simp
  qed
qed

lemma invariants_foldl:
  "keys_ok db \<Longrightarrow> ledger_ok db \<Longrightarrow>
   keys_ok (foldl apply_op db ops) \<and> ledger_ok (foldl apply_op db ops)"
proof (induction ops arbitrary: db)
  case Nil
  then show ?case by simp
next
  case (Cons x ops)
  from invariants_apply_op[OF Cons.prems] Cons.IH show ?case by simp
qed

lemma invariants_run: "keys_ok (run ops) \<and> ledger_ok (run ops)"
  unfolding run_def using keys_ok_init ledger_ok_init by (rule invariants_foldl)

subsection \<open>The active bookings of a client\<close>

lemma join_one_user:
  "concat (map (\<lambda>u. if uid u = x \<and> tg_id u = tg \<and> P then [b] else []) us) =
     (if P \<and> (\<exists>u\<in>set us. uid u = x \<and> tg_id u = tg) then [b] else [])"
  if "distinct (map tg_id us)"
  using that by (induction us) (auto simp: image_iff)

lemma concat_singletons:
  "concat (map (\<lambda>b. if Q b then [b] else []) xs) = filter Q xs"
  by (induction xs) auto

lemma active_by_tg_filter:
  assumes "keys_ok db"
  shows "active_bookings_by_tg db tg =
     filter (\<lambda>b. status b = ''active'' \<and> (\<exists>u\<in>set (users db). uid u = user_id b \<and> tg_id u = tg))
       (bookings db)"
proof -
  from assms have d: "distinct (map tg_id (users db))" by (simp add: keys_ok_def)
  show ?thesis
    unfolding active_bookings_by_tg_def join_one_user[OF d] by (rule concat_singletons)
qed

lemma active_by_tg_user:
  assumes "keys_ok db" "usr \<in> set (users db)" "tg_id usr = tg"
  shows "active_bookings_by_tg db tg = active_of_user db (uid usr)"
proof -
  from assms(1) have d: "distinct (map tg_id (users db))" by (simp add: keys_ok_def)
  have "u = usr" if "u \<in> set (users db)" "tg_id u = tg" for u
    using d that assms(2,3) by (metis distinct_map inj_on_def)
  with assms(2,3) have "(\<exists>u\<in>set (users db). uid u = x \<and> tg_id u = tg) \<longleftrightarrow> x = uid usr" for x
    by metis
  then show ?thesis
    unfolding active_by_tg_filter[OF assms(1)] active_of_user_def
    by (metis (mono_tags, lifting) filter_cong)
qed

lemma active_by_tg_le_1:
  assumes "keys_ok db" "ledger_ok db"
  shows "length (active_bookings_by_tg db tg) \<le> 1"
proof (cases "\<exists>usr\<in>set (users db). tg_id usr = tg")
  case True
  then obtain usr where "usr \<in> set (users db)" "tg_id usr = tg" by blast
  with assms(1) have "active_bookings_by_tg db tg = active_of_user db (uid usr)"
    by (rule active_by_tg_user)
  with assms(2) show ?thesis by (simp add: ledger_ok_def)
next
  case False
  then have "active_bookings_by_tg db tg = []"
    by (auto simp: active_by_tg_empty_iff)
  then show ?thesis by simp
qed

subsection \<open>Looking a row up after an update\<close>

lemma find_map_avail:
  "find (\<lambda>s. sid s = i) xs = Some s \<Longrightarrow>
   find (\<lambda>s. sid s = i) (map (\<lambda>x. if sid x = i then x\<lparr>is_available := v\<rparr> else x) xs) =
     Some (s\<lparr>is_available := v\<rparr>)"
  by (induction xs) (auto split: if_splits)

lemma delete_reminder_eq:
  "int64 k \<Longrightarrow>
   delete_reminder db k =
     Inr (db\<lparr>reminders := filter (\<lambda>r. booking_id r \<noteq> k) (reminders db)\<rparr>,
          map_option job_id (find (\<lambda>r. booking_id r = k) (reminders db)))"
proof (cases "find (\<lambda>r. booking_id r = k) (reminders db)")
  case None
  assume "int64 k"
  moreover from None have "filter (\<lambda>r. booking_id r \<noteq> k) (reminders db) = reminders db"
    by (auto simp: find_None_iff filter_id_conv)
  ultimately show ?thesis using None by (simp add: delete_reminder_def)
next
  case (Some row)
  assume "int64 k"
  with Some show ?thesis by (simp add: delete_reminder_def)
qed

lemma cancel_booking_reminders_frame:
  "cancel_booking (db\<lparr>reminders := rs\<rparr>) k =
     map_sum id (\<lambda>(d, r). (d\<lparr>reminders := rs\<rparr>, r)) (cancel_booking db k)"
  by (simp add: cancel_booking_def Let_def split: option.splits)

subsection \<open>The cancel flow of the client\<close>

lemma cancelled_none_left:
  "filter (\<lambda>b. bid b = k \<and> status b \<noteq> ''cancelled'')
     (map (\<lambda>b. if bid b = k then b\<lparr>status := ''cancelled''\<rparr> else b) xs) = []"
  by (induction xs) auto

lemma find_by_sid_exists:
  "i \<in> set (map sid xs) \<Longrightarrow> \<exists>s. find (\<lambda>s. sid s = i) xs = Some s"
  by (cases "find (\<lambda>s. sid s = i) xs") (auto simp: find_None_iff)

lemma user_cancel_booking_eq:
  assumes "int64 k" "cancel_booking db k = Inr (d, r)"
  shows "user_cancel_booking sched db k =
     (((case map_option job_id (find (\<lambda>r. booking_id r = k) (reminders db)) of
          None \<Rightarrow> sched | Some jid \<Rightarrow> if jid \<noteq> [] then sched(jid := None) else sched),
       d\<lparr>reminders := filter (\<lambda>r. booking_id r \<noteq> k) (reminders db)\<rparr>),
      Inr (case r of None \<Rightarrow> NotFoundOrCancelled | Some (dt, t) \<Rightarrow> BookingCancelled dt t))"
  using assms
  by (simp add: user_cancel_booking_def delete_reminder_eq cancel_booking_reminders_frame
      split: option.splits)

section \<open>C4: the two failure causes of a reservation\<close>

lemmas store_eval =
  book_slot_def active_bookings_by_tg_def get_or_create_user_def update_user_info_def
  get_slot_def cancel_booking_def delete_reminder_def save_reminder_def confirm_booking_def
  int64_def Let_def

text \<open>
  C4 (as the code has it).  For a client id that SQLite can hold, \<^verbatim>\<open>book_slot\<close> has one
  failure value, Python's \<^verbatim>\<open>None\<close>: it is returned when the client already has an
  active booking (and then the store is untouched), it is returned as well when the slot
  id fits 64 bits and the slot is missing or not available, and it is returned in no
  other case.  With no active booking and a slot id outside the signed 64-bit range the
  slot query raises \<^verbatim>\<open>OverflowError\<close> instead.  Whenever \<^verbatim>\<open>book_slot\<close> returns
  \<^verbatim>\<open>None\<close>, whatever the cause, \<^verbatim>\<open>confirm_booking\<close> shows the same text.
\<close>

theorem reserve_failure_one_value_one_text:
  assumes "int64 tg"
  shows
    "(active_bookings_by_tg db tg \<noteq> [] \<longrightarrow> book_slot db now tg i = (db, Inr None)) \<and>
     (int64 i \<and> (find (\<lambda>s. sid s = i) (slots db) = None \<or>
                  (\<exists>s. find (\<lambda>s. sid s = i) (slots db) = Some s \<and> \<not> is_available s))
        \<longrightarrow> snd (book_slot db now tg i) = Inr None) \<and>
     (snd (book_slot db now tg i) = Inr None \<longrightarrow>
        active_bookings_by_tg db tg \<noteq> [] \<or>
        int64 i \<and> (find (\<lambda>s. sid s = i) (slots db) = None \<or>
                   (\<exists>s. find (\<lambda>s. sid s = i) (slots db) = Some s \<and> \<not> is_available s))) \<and>
     (active_bookings_by_tg db tg = [] \<and> \<not> int64 i
        \<longrightarrow> snd (book_slot db now tg i) = Inl OverflowError) \<and>
     (chosen_slot_id data = Some i \<and> snd (book_slot db now tg i) = Inr None
        \<longrightarrow> snd (confirm_booking sched db now now2 tg data) = Inr BookingFailed)"
proof (intro conjI impI)
  assume "active_bookings_by_tg db tg \<noteq> []"
  with assms show "book_slot db now tg i = (db, Inr None)" by (rule book_slot_already_booked)
next
  assume "int64 i \<and> (find (\<lambda>s. sid s = i) (slots db) = None \<or>
                  (\<exists>s. find (\<lambda>s. sid s = i) (slots db) = Some s \<and> \<not> is_available s))"
  with assms show "snd (book_slot db now tg i) = Inr None"
    by (simp add: book_slot_slot_unavailable)
next
  assume "snd (book_slot db now tg i) = Inr None"
  from book_slot_None_cause[OF this]
  show "active_bookings_by_tg db tg \<noteq> [] \<or>
        int64 i \<and> (find (\<lambda>s. sid s = i) (slots db) = None \<or>
                   (\<exists>s. find (\<lambda>s. sid s = i) (slots db) = Some s \<and> \<not> is_available s))"
    by simp
next
  assume "active_bookings_by_tg db tg = [] \<and> \<not> int64 i"
  with assms show "snd (book_slot db now tg i) = Inl OverflowError"
    by (simp add: book_slot_slot_overflow)
next
  assume "chosen_slot_id data = Some i \<and> snd (book_slot db now tg i) = Inr None"
  with assms show "snd (confirm_booking sched db now now2 tg data) = Inr BookingFailed"
    by (simp add: confirm_booking_failed)
qed

theorem reserve_failure_one_value_one_text_witness:
  "int64 7 \<and> active_bookings_by_tg scenario_db 7 \<noteq> [] \<and>
   book_slot scenario_db 0 7 2 = (scenario_db, Inr None) \<and>
   snd (confirm_booking Map.empty scenario_db 0 0 7
          \<lparr>chosen_slot_id = Some 2, data_name = Some ''Ann'', data_phone = Some ''1''\<rparr>)
     = Inr BookingFailed \<and>
   int64 8 \<and> int64 1 \<and>
   (\<exists>s. find (\<lambda>s. sid s = 1) (slots scenario_db) = Some s \<and> \<not> is_available s) \<and>
   snd (book_slot scenario_db 0 8 1) = Inr None \<and>
   snd (confirm_booking Map.empty scenario_db 0 0 8
          \<lparr>chosen_slot_id = Some 1, data_name = Some ''Bob'', data_phone = Some ''2''\<rparr>)
     = Inr BookingFailed \<and>
   active_bookings_by_tg scenario_db 8 = [] \<and> \<not> int64 (2 ^ 63) \<and>
   snd (book_slot scenario_db 0 8 (2 ^ 63)) = Inl OverflowError"
proof -
  have a: "int64 7" "int64 8" "int64 1" "\<not> int64 (2 ^ 63)"
    by (simp_all add: int64_def)
  have b: "active_bookings_by_tg scenario_db 7 \<noteq> []" "active_bookings_by_tg scenario_db 8 = []"
    by (simp_all add: scenario_db_eq active_bookings_by_tg_def)
  have c: "\<exists>s. find (\<lambda>s. sid s = 1) (slots scenario_db) = Some s \<and> \<not> is_available s"
    by (simp add: scenario_db_eq)
  have d: "chosen_slot_id \<lparr>chosen_slot_id = Some 2, data_name = Some ''Ann'',
             data_phone = Some ''1''\<rparr> = Some 2"
    "chosen_slot_id \<lparr>chosen_slot_id = Some 1, data_name = Some ''Bob'',
             data_phone = Some ''2''\<rparr> = Some 1"
    by simp_all
  note t7 = reserve_failure_one_value_one_text [OF a(1), of scenario_db 0 2
      "\<lparr>chosen_slot_id = Some 2, data_name = Some ''Ann'', data_phone = Some ''1''\<rparr>" Map.empty 0]
  note t8 = reserve_failure_one_value_one_text [OF a(2), of scenario_db 0 1
      "\<lparr>chosen_slot_id = Some 1, data_name = Some ''Bob'', data_phone = Some ''2''\<rparr>" Map.empty 0]
  note t9 = reserve_failure_one_value_one_text [OF a(2), of scenario_db 0 "2 ^ 63"]
  from a b c d t7 t8 t9 show ?thesis by simp
qed

text \<open>
  C4 as stated fails: client 7 is refused the free slot 2 because of the active booking,
  client 8 (who has none) is refused slot 1 because it is taken; \<^verbatim>\<open>book_slot\<close>
  returns the same value to both and \<^verbatim>\<open>confirm_booking\<close> shows both the same text.
\<close>

theorem reserve_distinct_outcomes_counterexample:
  "active_bookings_by_tg scenario_db 7 \<noteq> [] \<and>
   map_option is_available (find (\<lambda>s. sid s = 2) (slots scenario_db)) = Some True \<and>
   active_bookings_by_tg scenario_db 8 = [] \<and>
   map_option is_available (find (\<lambda>s. sid s = 1) (slots scenario_db)) = Some False \<and>
   snd (book_slot scenario_db 0 7 2) = snd (book_slot scenario_db 0 8 1) \<and>
   snd (confirm_booking Map.empty scenario_db 0 0 7
          \<lparr>chosen_slot_id = Some 2, data_name = Some ''Ann'', data_phone = Some ''1''\<rparr>) =
   snd (confirm_booking Map.empty scenario_db 0 0 8
          \<lparr>chosen_slot_id = Some 1, data_name = Some ''Bob'', data_phone = Some ''2''\<rparr>)"
  by (simp add: scenario_db_eq store_eval)


section \<open>C10: contact data when the confirmation fails\<close>

text \<open>
  C10 at a client that has no user row yet (empty store, client 5, slot 9 does not
  exist, name and phone entered): \<^verbatim>\<open>update_user_info\<close> runs before the row exists and
  changes nothing, \<^verbatim>\<open>book_slot\<close> then creates the row and fails, and the row is left
  with no name and no phone.  No slot and no booking is touched.
\<close>

theorem confirm_booking_new_client_loses_contact:
  "confirm_booking Map.empty init_db 0 0 5
     \<lparr>chosen_slot_id = Some 9, data_name = Some ''Ann'', data_phone = Some ''123''\<rparr> =
   ((Map.empty,
     init_db\<lparr>users := [\<lparr>uid = 1, tg_id = 5, uname = None, phone = None,
                          last_menu_message_id = None\<rparr>],
             seq_users := 1\<rparr>),
    Inr BookingFailed)"
  by (simp add: init_db_def store_eval)


section \<open>C1: availability flag and active bookings\<close>





section \<open>C2: one active booking per client\<close>

text \<open>
  C2.  In every store reached by the four operations a client has at most one active
  booking; and \<^verbatim>\<open>book_slot\<close> for a client who has one leaves the store as it is (it
  returns \<^verbatim>\<open>None\<close>).
\<close>

theorem one_active_booking_per_client:
  "length (active_bookings_by_tg (run ops) tg) \<le> 1 \<and>
   (active_bookings_by_tg (run ops) tg \<noteq> [] \<longrightarrow>
      fst (book_slot (run ops) now tg i) = run ops \<and>
      (int64 tg \<longrightarrow> snd (book_slot (run ops) now tg i) = Inr None))"
proof -
  from invariants_run[of ops] have "length (active_bookings_by_tg (run ops) tg) \<le> 1"
    using active_by_tg_le_1 by blast
  moreover have "fst (book_slot (run ops) now tg i) = run ops"
    if "active_bookings_by_tg (run ops) tg \<noteq> []"
    using that by (simp add: book_slot_def)
  moreover have "snd (book_slot (run ops) now tg i) = Inr None"
    if "active_bookings_by_tg (run ops) tg \<noteq> []" "int64 tg"
    using that by (simp add: book_slot_def)
  ultimately show ?thesis by blast
qed

theorem one_active_booking_per_client_witness:
  "active_bookings_by_tg scenario_db 7 =
     [\<lparr>bid = 1, user_id = 1, slot_id = 1, status = ''active'', created_at = 0\<rparr>] \<and>
   int64 7 \<and>
   book_slot scenario_db 5 7 2 = (scenario_db, Inr None)"
proof -
  have a: "active_bookings_by_tg scenario_db 7 =
     [\<lparr>bid = 1, user_id = 1, slot_id = 1, status = ''active'', created_at = 0\<rparr>]"
    by (simp add: scenario_db_eq active_bookings_by_tg_def)
  have b: "int64 7" by (simp add: int64_def)
  from a b one_active_booking_per_client [of scenario_ops 7 5 2]
  show ?thesis by (simp add: scenario_db_def prod_eq_iff)
qed


section \<open>C3: a reservation that succeeds\<close>

text \<open>
  C3.  The store satisfies \<open>keys_ok\<close> (as every store reached by the operations does),
  the client id and the slot id are integers that SQLite holds, the client has no
  active booking, and the slot exists and is available.  Then \<^verbatim>\<open>book_slot\<close> returns the
  id of a booking; it has set the flag of that slot (and of no other) to false and
  appended exactly one booking, active, for the user row of the client and for the slot,
  whose id is the one returned; and any later \<^verbatim>\<open>book_slot\<close> on the same slot returns
  \<^verbatim>\<open>None\<close>.
\<close>

theorem reserve_succeeds_on_free_slot:
  assumes "keys_ok db" "int64 tg" "int64 i"
    and "active_bookings_by_tg db tg = []"
    and "find (\<lambda>s. sid s = i) (slots db) = Some s" "is_available s"
  shows "\<exists>db' k u.
      book_slot db now tg i = (db', Inr (Some k)) \<and>
      slots db' = map (\<lambda>x. if sid x = i then x\<lparr>is_available := False\<rparr> else x) (slots db) \<and>
      find (\<lambda>s. sid s = i) (slots db') = Some (s\<lparr>is_available := False\<rparr>) \<and>
      bookings db' = bookings db @
        [\<lparr>bid = k, user_id = u, slot_id = i, status = ''active'', created_at = now\<rparr>] \<and>
      (\<exists>usr\<in>set (users db'). uid usr = u \<and> tg_id usr = tg) \<and>
      (\<forall>tg' now'. int64 tg' \<longrightarrow> snd (book_slot db' now' tg' i) = Inr None)"
proof -
  from assms(2) obtain db1 u where g: "get_or_create_user db tg = Inr (db1, u)"
    by (cases rule: get_or_create_user_cases[of tg db]) auto
  then have fr: "slots db1 = slots db" "bookings db1 = bookings db"
    "seq_bookings db1 = seq_bookings db"
    by (simp_all add: get_or_create_user_frame)
  let ?db' = "booked db1 now u i"
  have b: "book_slot db now tg i = (?db', Inr (Some (seq_bookings db + 1)))"
    using assms(1) assms(4) assms(5) assms(6) assms(2) assms(3) g by (rule book_slot_success)
  have s1: "slots ?db' = map (\<lambda>x. if sid x = i then x\<lparr>is_available := False\<rparr> else x) (slots db)"
    using fr by (simp add: booked_def)
  have s2: "find (\<lambda>s. sid s = i) (slots ?db') = Some (s\<lparr>is_available := False\<rparr>)"
    unfolding s1 using assms(5) by (rule find_map_avail)
  have s3: "bookings ?db' = bookings db @
        [\<lparr>bid = seq_bookings db + 1, user_id = u, slot_id = i, status = ''active'',
          created_at = now\<rparr>]"
    using fr by (simp add: booked_def)
  from get_or_create_user_tg[OF g]
  have s4: "\<exists>usr\<in>set (users ?db'). uid usr = u \<and> tg_id usr = tg"
    by (simp add: booked_def)
  have s5: "snd (book_slot ?db' now' tg' i) = Inr None" if "int64 tg'" for tg' now'
    using that assms(3) s2 by (intro book_slot_slot_unavailable) auto
  from b s1 s2 s3 s4 s5 show ?thesis by blast
qed

theorem reserve_succeeds_on_free_slot_witness:
  "keys_ok scenario_db \<and> int64 8 \<and> int64 2 \<and> active_bookings_by_tg scenario_db 8 = [] \<and>
   find (\<lambda>s. sid s = 2) (slots scenario_db) =
     Some \<lparr>sid = 2, sdate = ''2025-06-10'', stime = ''15:00'', is_available = True\<rparr> \<and>
   snd (book_slot scenario_db 3 8 2) = Inr (Some 2) \<and>
   bookings (fst (book_slot scenario_db 3 8 2)) =
     [\<lparr>bid = 1, user_id = 1, slot_id = 1, status = ''active'', created_at = 0\<rparr>,
      \<lparr>bid = 2, user_id = 2, slot_id = 2, status = ''active'', created_at = 3\<rparr>] \<and>
   map is_available (slots (fst (book_slot scenario_db 3 8 2))) = [False, False] \<and>
   snd (book_slot (fst (book_slot scenario_db 3 8 2)) 4 9 2) = Inr None"
proof -
  have k: "keys_ok scenario_db"
    unfolding scenario_db_def using invariants_run by blast
  have a: "int64 8" "int64 2" "int64 9" by (simp_all add: int64_def)
  have b: "active_bookings_by_tg scenario_db 8 = []"
    by (simp add: scenario_db_eq active_bookings_by_tg_def)
  have c: "find (\<lambda>s. sid s = 2) (slots scenario_db) =
     Some \<lparr>sid = 2, sdate = ''2025-06-10'', stime = ''15:00'', is_available = True\<rparr>"
    by (simp add: scenario_db_eq)
  have d: "is_available \<lparr>sid = 2, sdate = ''2025-06-10'', stime = ''15:00'', is_available = True\<rparr>"
    by simp
  from reserve_succeeds_on_free_slot [OF k a(1) a(2) b c d, of 3]
  obtain db' k' u where r: "book_slot scenario_db 3 8 2 = (db', Inr (Some k'))"
      "\<forall>tg' now'. int64 tg' \<longrightarrow> snd (book_slot db' now' tg' 2) = Inr None"
    by blast
  from r a(3) have e: "snd (book_slot (fst (book_slot scenario_db 3 8 2)) 4 9 2) = Inr None"
    by simp
  have f: "book_slot scenario_db 3 8 2 =
     (scenario_db\<lparr>users := users scenario_db @
          [\<lparr>uid = 2, tg_id = 8, uname = None, phone = None, last_menu_message_id = None\<rparr>],
        seq_users := 2,
        slots := [\<lparr>sid = 1, sdate = ''2025-06-10'', stime = ''14:00'', is_available = False\<rparr>,
               \<lparr>sid = 2, sdate = ''2025-06-10'', stime = ''15:00'', is_available = False\<rparr>],
        bookings := [\<lparr>bid = 1, user_id = 1, slot_id = 1, status = ''active'', created_at = 0\<rparr>,
          \<lparr>bid = 2, user_id = 2, slot_id = 2, status = ''active'', created_at = 3\<rparr>],
        seq_bookings := 2\<rparr>, Inr (Some 2))"
    by (simp add: scenario_db_eq store_eval)
  from k a b c e show ?thesis by (simp add: f)
qed



section \<open>C5: cancelling a reservation\<close>

text \<open>
  C5 (as the code has it), for a booking id that SQLite can hold.  When no active
  booking has the id, \<^verbatim>\<open>cancel_booking\<close> returns \<^verbatim>\<open>None\<close> and the store is unchanged.
  When one has (in a store that satisfies \<open>keys_ok\<close>), its slot exists,
  \<^verbatim>\<open>cancel_booking\<close> returns the date and time of that slot, no booking with the id is
  left with a status other than cancelled, the slot is available again, and
  \<^verbatim>\<open>user_cancel_booking\<close> reports that date and time.  In either case the store that
  \<^verbatim>\<open>user_cancel_booking\<close> leaves has no reminder record for the id.
\<close>

theorem cancel_booking_effect:
  assumes "int64 k"
  shows
    "(find (\<lambda>b. bid b = k \<and> status b = ''active'') (bookings db) = None
        \<longrightarrow> cancel_booking db k = Inr (db, None)) \<and>
     (\<forall>row. keys_ok db \<and> find (\<lambda>b. bid b = k \<and> status b = ''active'') (bookings db) = Some row
        \<longrightarrow> (\<exists>s. find (\<lambda>s. sid s = slot_id row) (slots db) = Some s \<and>
               cancel_booking db k = Inr (cancelled db k (slot_id row), Some (sdate s, stime s)) \<and>
               filter (\<lambda>b. bid b = k \<and> status b \<noteq> ''cancelled'')
                 (bookings (cancelled db k (slot_id row))) = [] \<and>
               find (\<lambda>s. sid s = slot_id row) (slots (cancelled db k (slot_id row))) =
                 Some (s\<lparr>is_available := True\<rparr>) \<and>
               snd (user_cancel_booking sched db k) = Inr (BookingCancelled (sdate s) (stime s)) \<and>
               bookings (snd (fst (user_cancel_booking sched db k))) =
                 bookings (cancelled db k (slot_id row)) \<and>
               slots (snd (fst (user_cancel_booking sched db k))) =
                 slots (cancelled db k (slot_id row)))) \<and>
     reminders (snd (fst (user_cancel_booking sched db k))) =
       filter (\<lambda>r. booking_id r \<noteq> k) (reminders db)"
proof (intro conjI allI impI)
  assume "find (\<lambda>b. bid b = k \<and> status b = ''active'') (bookings db) = None"
  with assms show "cancel_booking db k = Inr (db, None)" by (simp add: cancel_booking_def)
next
  fix row
  assume a: "keys_ok db \<and> find (\<lambda>b. bid b = k \<and> status b = ''active'') (bookings db) = Some row"
  then have fnd: "find (\<lambda>b. bid b = k \<and> status b = ''active'') (bookings db) = Some row"
    and ko: "keys_ok db" by simp_all
  from find_SomeD[OF fnd] have "row \<in> set (bookings db)" by simp
  then have "slot_id row \<in> set (map slot_id (bookings db))" by simp
  moreover from ko have "set (map slot_id (bookings db)) \<subseteq> set (map sid (slots db))"
    by (simp add: keys_ok_def)
  ultimately have "slot_id row \<in> set (map sid (slots db))" by blast
  then obtain s where s: "find (\<lambda>s. sid s = slot_id row) (slots db) = Some s"
    using find_by_sid_exists by blast
  have s': "find (\<lambda>s. sid s = slot_id row) (slots (cancelled db k (slot_id row))) =
      Some (s\<lparr>is_available := True\<rparr>)"
    using find_map_avail[OF s] by (simp add: cancelled_def)
  have c: "cancel_booking db k =
      Inr (cancelled db k (slot_id row), Some (sdate s, stime s))"
  proof (cases rule: cancel_booking_cases[of k db])
    case bad_id
    with assms show ?thesis by simp
  next
    case absent
    with fnd show ?thesis by simp
  next
    case (active row')
    with fnd have "row' = row" by simp
    with active(3) s' show ?thesis by simp
  qed
  have f: "filter (\<lambda>b. bid b = k \<and> status b \<noteq> ''cancelled'')
      (bookings (cancelled db k (slot_id row))) = []"
    by (simp add: cancelled_def cancelled_none_left)
  have u: "user_cancel_booking sched db k =
     (((case map_option job_id (find (\<lambda>r. booking_id r = k) (reminders db)) of
          None \<Rightarrow> sched | Some jid \<Rightarrow> if jid \<noteq> [] then sched(jid := None) else sched),
       (cancelled db k (slot_id row))\<lparr>reminders := filter (\<lambda>r. booking_id r \<noteq> k) (reminders db)\<rparr>),
      Inr (BookingCancelled (sdate s) (stime s)))"
    using user_cancel_booking_eq[OF assms c, of sched] by simp
  have u1: "snd (user_cancel_booking sched db k) = Inr (BookingCancelled (sdate s) (stime s))"
    "bookings (snd (fst (user_cancel_booking sched db k))) =
                 bookings (cancelled db k (slot_id row))"
    "slots (snd (fst (user_cancel_booking sched db k))) = slots (cancelled db k (slot_id row))"
    by (simp_all only: u fst_conv snd_conv) simp_all
  from s s' c f u1
  show "\<exists>s. find (\<lambda>s. sid s = slot_id row) (slots db) = Some s \<and>
               cancel_booking db k = Inr (cancelled db k (slot_id row), Some (sdate s, stime s)) \<and>
               filter (\<lambda>b. bid b = k \<and> status b \<noteq> ''cancelled'')
                 (bookings (cancelled db k (slot_id row))) = [] \<and>
               find (\<lambda>s. sid s = slot_id row) (slots (cancelled db k (slot_id row))) =
                 Some (s\<lparr>is_available := True\<rparr>) \<and>
               snd (user_cancel_booking sched db k) = Inr (BookingCancelled (sdate s) (stime s)) \<and>
               bookings (snd (fst (user_cancel_booking sched db k))) =
                 bookings (cancelled db k (slot_id row)) \<and>
               slots (snd (fst (user_cancel_booking sched db k))) =
                 slots (cancelled db k (slot_id row))"
    by blast
next
  from assms obtain d r where "cancel_booking db k = Inr (d, r)"
    by (cases rule: cancel_booking_cases[of k db]) auto
  from user_cancel_booking_eq[OF assms this, of sched]
  show "reminders (snd (fst (user_cancel_booking sched db k))) =
       filter (\<lambda>r. booking_id r \<noteq> k) (reminders db)"
    by simp
qed


lemma reminded_db_eq:
  "reminded_db =
     \<lparr>users = [\<lparr>uid = 1, tg_id = 7, uname = None, phone = None, last_menu_message_id = None\<rparr>],
      slots = [\<lparr>sid = 1, sdate = ''2025-06-10'', stime = ''14:00'', is_available = False\<rparr>,
               \<lparr>sid = 2, sdate = ''2025-06-10'', stime = ''15:00'', is_available = True\<rparr>],
      bookings = [\<lparr>bid = 1, user_id = 1, slot_id = 1, status = ''active'', created_at = 0\<rparr>],
      reminders = [\<lparr>rid = 1, booking_id = 1, run_at = 63885074400000000,
                     job_id = ''reminder_1''\<rparr>],
      seq_users = 1, seq_slots = 2, seq_bookings = 1, seq_reminders = 1\<rparr>"
  by (simp add: reminded_db_def scenario_db_eq)

lemma keys_ok_reminded_db: "keys_ok reminded_db"
proof -
  have "keys_ok scenario_db"
    unfolding scenario_db_def using invariants_run by blast
  then show ?thesis by (simp add: keys_ok_def reminded_db_def)
qed

theorem cancel_booking_effect_witness:
  "int64 1 \<and> keys_ok reminded_db \<and>
   find (\<lambda>b. bid b = 1 \<and> status b = ''active'') (bookings reminded_db) =
     Some \<lparr>bid = 1, user_id = 1, slot_id = 1, status = ''active'', created_at = 0\<rparr> \<and>
   map_sum id snd (cancel_booking reminded_db 1) = Inr (Some (''2025-06-10'', ''14:00'')) \<and>
   snd (user_cancel_booking reminded_sched reminded_db 1) =
     Inr (BookingCancelled ''2025-06-10'' ''14:00'') \<and>
   map status (bookings (snd (fst (user_cancel_booking reminded_sched reminded_db 1)))) =
     [''cancelled''] \<and>
   map is_available (slots (snd (fst (user_cancel_booking reminded_sched reminded_db 1)))) =
     [True, True] \<and>
   reminders (snd (fst (user_cancel_booking reminded_sched reminded_db 1))) = [] \<and>
   int64 5 \<and> find (\<lambda>b. bid b = 5 \<and> status b = ''active'') (bookings reminded_db) = None \<and>
   cancel_booking reminded_db 5 = Inr (reminded_db, None)"
proof -
  have a: "int64 1" "int64 5" by (simp_all add: int64_def)
  have b: "find (\<lambda>b. bid b = 1 \<and> status b = ''active'') (bookings reminded_db) =
     Some \<lparr>bid = 1, user_id = 1, slot_id = 1, status = ''active'', created_at = 0\<rparr>"
    "find (\<lambda>b. bid b = 5 \<and> status b = ''active'') (bookings reminded_db) = None"
    by (simp_all add: reminded_db_eq)
  note t1 = cancel_booking_effect [OF a(1), of reminded_db reminded_sched]
  note t5 = cancel_booking_effect [OF a(2), of reminded_db reminded_sched]
  from t5 b(2) have c5: "cancel_booking reminded_db 5 = Inr (reminded_db, None)" by blast
  from t1 have r: "reminders (snd (fst (user_cancel_booking reminded_sched reminded_db 1))) =
       filter (\<lambda>r. booking_id r \<noteq> 1) (reminders reminded_db)" by blast
  have e: "user_cancel_booking reminded_sched reminded_db 1 =
     ((reminded_sched(''reminder_1'' := None),
       reminded_db\<lparr>bookings := [\<lparr>bid = 1, user_id = 1, slot_id = 1, status = ''cancelled'',
                                   created_at = 0\<rparr>],
                   slots := [\<lparr>sid = 1, sdate = ''2025-06-10'', stime = ''14:00'', is_available = True\<rparr>,
                             \<lparr>sid = 2, sdate = ''2025-06-10'', stime = ''15:00'', is_available = True\<rparr>],
                   reminders := []\<rparr>),
      Inr (BookingCancelled ''2025-06-10'' ''14:00''))"
    by (simp add: reminded_db_eq user_cancel_booking_def store_eval)
  have f: "map_sum id snd (cancel_booking reminded_db 1) = Inr (Some (''2025-06-10'', ''14:00''))"
    by (simp add: reminded_db_eq store_eval)
  from a b c5 f keys_ok_reminded_db show ?thesis by (simp add: e)
qed

text \<open>
  C5 as stated fails for an id that no booking has but that does not fit 64 bits: the
  query raises instead of returning \<^verbatim>\<open>None\<close>.
\<close>

theorem cancel_absent_id_counterexample:
  "find (\<lambda>b. bid b = 2 ^ 63 \<and> status b = ''active'') (bookings scenario_db) = None \<and>
   cancel_booking scenario_db (2 ^ 63) = Inl OverflowError \<and>
   snd (user_cancel_booking Map.empty scenario_db (2 ^ 63)) = Inl OverflowError"
  by (simp add: scenario_db_eq user_cancel_booking_def store_eval)


section \<open>C9: adding the slots of a day\<close>

lemma parsed_times_Nil [simp]: "parsed_times [] = []"
  by (simp add: parsed_times_def List.map_filter_def)

lemma parsed_times_Cons:
  "parsed_times (p # ps) =
     (case strptime_HM p of Inl e \<Rightarrow> parsed_times ps | Inr tm \<Rightarrow> tm # parsed_times ps)"
  by (simp add: parsed_times_def List.map_filter_def split: sum.splits)

lemma add_times_eq:
  "add_times db dt parts c =
     (foldl (\<lambda>d tm. create_slot d dt tm) db (parsed_times parts), c + length (parsed_times parts))"
  by (induction parts arbitrary: db c) (simp_all add: parsed_times_Cons split: sum.splits)

lemma foldl_create_slot:
  "foldl (\<lambda>d tm. create_slot d dt tm) db tms =
     db\<lparr>slots := slots db @ new_slots (seq_slots db) dt tms,
        seq_slots := seq_slots db + int (length tms)\<rparr>"
proof (induction tms arbitrary: db)
  case Nil
  then show ?case by simp
next
  case (Cons tm tms)
  show ?case
    unfolding foldl_Cons Cons.IH by (simp add: create_slot_def)
qed

lemma length_parsed_times:
  "length (parsed_times ps) = length (filter (\<lambda>p. \<exists>tm. strptime_HM p = Inr tm) ps)"
proof (induction ps)
  case Nil
  then show ?case by simp
next
  case (Cons p ps)
  then show ?case by (cases "strptime_HM p") (simp_all add: parsed_times_Cons)
qed

text \<open>
  C9.  For the administrator and a dialogue that holds a day, \<^verbatim>\<open>admin_add_times\<close>
  never raises: it appends to the slot table one available slot of that day for every
  part of the message that \<^verbatim>\<open>strptime\<close> accepts as \<^verbatim>\<open>%H:%M\<close>, in the order of the
  message, and nothing for the other parts; it touches no other table; and it reports the
  number of slots it created, which is the number of parts that parse.
\<close>

theorem admin_add_times_creates_parsed:
  "admin_add_times a db a (Some dt) text =
     (db\<lparr>slots := slots db @ new_slots (seq_slots db) dt (parsed_times (parts_of text)),
         seq_slots := seq_slots db + int (length (parsed_times (parts_of text)))\<rparr>,
      SlotsCreated (length (parsed_times (parts_of text))) dt) \<and>
   length (new_slots (seq_slots db) dt (parsed_times (parts_of text))) =
     length (filter (\<lambda>p. \<exists>tm. strptime_HM p = Inr tm) (parts_of text)) \<and>
   map is_available (new_slots (seq_slots db) dt (parsed_times (parts_of text))) =
     replicate (length (parsed_times (parts_of text))) True"
proof -
  have 1: "length (new_slots n dt tms) = length tms" for n tms
    by (induction tms arbitrary: n) simp_all
  have 2: "map is_available (new_slots n dt tms) = replicate (length tms) True" for n tms
    by (induction tms arbitrary: n) simp_all
  show ?thesis
    by (simp add: add_times_eq foldl_create_slot 1 2 length_parsed_times admin_add_times_def)
qed

lemma parse_examples:
  "strptime_HM ''10:00'' = Inr \<lparr>hour = 10, minute = 0\<rparr>"
  "strptime_HM ''bad'' = Inl ValueError"
  "strptime_HM ''12:30'' = Inr \<lparr>hour = 12, minute = 30\<rparr>"
  by code_simp+

lemma format_examples:
  "isoformat day2 = ''2025-06-11''"
  "strftime_HM \<lparr>hour = 10, minute = 0\<rparr> = ''10:00''"
  "strftime_HM \<lparr>hour = 12, minute = 30\<rparr> = ''12:30''"
  by code_simp+

lemma split_example:
  "parts_of ''10:00, bad, 12:30'' = [''10:00'', ''bad'', ''12:30'']"
  by code_simp

theorem admin_add_times_creates_parsed_witness:
  "admin_add_times 1 init_db 1 (Some day2) ''10:00, bad, 12:30'' =
     (init_db\<lparr>slots := [\<lparr>sid = 1, sdate = ''2025-06-11'', stime = ''10:00'', is_available = True\<rparr>,
                          \<lparr>sid = 2, sdate = ''2025-06-11'', stime = ''12:30'', is_available = True\<rparr>],
              seq_slots := 2\<rparr>, SlotsCreated 2 day2) \<and>
   parsed_times (parts_of ''10:00, bad, 12:30'') =
     [\<lparr>hour = 10, minute = 0\<rparr>, \<lparr>hour = 12, minute = 30\<rparr>]"
  using admin_add_times_creates_parsed [of 1 init_db day2 "''10:00, bad, 12:30''"]
  by (simp add: split_example parse_examples format_examples parsed_times_Cons parsed_times_Nil
      init_db_def)

end
